theory Spec2Isabelle
  imports Main
begin

section \<open>ADLES: the vSphere interface (adles/interfaces/vsphere\_interface.py)\<close>

text \<open>
  A shallow embedding of the class \<open>VsphereInterface\<close>. Python exceptions are values of
  the type \<open>error\<close>; every method that can raise, log or call the hypervisor returns
  its result together with the state it leaves behind, so that what was done before an
  exception stays visible. The hypervisor itself (pyVmomi, \<open>adles.vsphere\<close>) is not part
  of the file: the calls the class makes to it are recorded in a trace, and the answers
  it gives are read from a small inventory (see the section on the driver).
\<close>

subsection \<open>Exceptions and the log\<close>

datatype error =
    ThresholdException   \<comment> \<open>\<open>Exception("Threshold exception")\<close>\<close>
  | AttributeError
  | ValueError
  | TypeError
  | KeyError
  | IndexError
  | StopIteration

datatype level = DEBUG | INFO | WARNING | ERROR

datatype arg = AStr string | AInt int

text \<open>A log record: the level, the format string (written without the quotes it puts
  around \<open>%s\<close>) and its arguments, as handed to \<open>self._log\<close>.\<close>

type_synonym log_entry = "level \<times> string \<times> arg list"

subsection \<open>The specification\<close>

text \<open>
  \<open>__init__\<close> assumes a valid specification (``checks on key existence and types are
  not performed''), so the dictionaries are typed here. A folder dictionary that has the
  key \<open>services\<close> is a base folder; its other keys are looked up by name only, so it is a
  record. Any other folder dictionary is walked entry by entry, so it keeps its entries
  in order; \<open>Sub name d\<close> is a key \<open>name\<close> whose value is the folder dictionary \<open>d\<close>.
  The \<open>networks\<close> list of a service instance is a mutable Python list owned by the
  specification: it is held by reference (an address of the store in the state).
\<close>

datatype instances_t =
    InstInt int
  | InstDict (inst_prefix: "string option") (inst_number: "int option")
      (inst_size_of: "string option")

record service_inst =
  si_service :: string
  si_networks :: nat
  si_instances :: "instances_t option"

record base_folder =
  bf_group :: "string option"
  bf_master_group :: "string option"
  bf_instances :: "instances_t option"
  bf_enabled :: "bool option"
  bf_services :: "(string \<times> service_inst) list"

datatype folder =
    Base base_folder
  | Parent "entry list"
and entry =
    Instances instances_t
  | Description string
  | Enabled bool
  | Group string
  | MasterGroup string
  | Sub string folder

record service_def =
  sd_template :: "string option"
  sd_note :: "string option"

record net_config =
  nc_vlan :: "int option"
  nc_vswitch :: "string option"

subsection \<open>The hypervisor as the class sees it\<close>

type_synonym path = "string list"

record nic =
  nic_backing :: "string option"
  nic_summary :: string

record vm =
  vm_nics :: "nic list"
  vm_tools :: bool

record portgroup =
  pg_promiscuous :: bool
  pg_vlan :: int
  pg_vswitch :: string

datatype kind = FolderK | VmK

text \<open>The calls that reach the hypervisor, in the order the class makes them. Objects
  are named by their path from the server root.\<close>

datatype call =
    CreateFolder string path
  | TraversePath path string
  | CloneVm path path string
  | SetNote path string
  | CreateSnapshot path string string
  | DeleteNic path nat
  | AddNic path "string option" string string
  | GetNicById path nat
  | EditNic path nat "string option" string
  | CreatePortgroup string bool int string

record state =
  inventory :: "path \<rightharpoonup> kind"
  vms :: "path \<Rightarrow> vm"
  host_nets :: "string \<rightharpoonup> portgroup"
  net_table :: "string \<rightharpoonup> bool"
  store :: "nat \<Rightarrow> string list"
  calls :: "call list"
  logs :: "log_entry list"

text \<open>The fields of the instance that provisioning only reads.\<close>

record iface =
  self_services :: "(string \<times> service_def) list"
  self_networks :: "(string \<times> (string \<times> net_config) list) list"
  self_groups :: "string list"
  vswitch_name :: string
  host_name :: string
  master_folder :: path
  template_folder :: path

definition log :: "level \<Rightarrow> string \<Rightarrow> arg list \<Rightarrow> state \<Rightarrow> state" where
  "log lvl fmt args st = st\<lparr>logs := logs st @ [(lvl, fmt, args)]\<rparr>"

definition record_call :: "call \<Rightarrow> state \<Rightarrow> state" where
  "record_call c st = st\<lparr>calls := calls st @ [c]\<rparr>"

subsection \<open>Names, prefixes and thresholds\<close>

definition master_prefix :: string where
  "master_prefix = ''(MASTER) ''"

definition master_root_name :: string where
  "master_root_name = ''MASTER-FOLDERS''"

datatype obj_type = FolderT | ServiceT

definition obj_type_name :: "obj_type \<Rightarrow> string" where
  "obj_type_name t = (case t of FolderT \<Rightarrow> ''folder'' | ServiceT \<Rightarrow> ''service'')"

definition threshold_warn :: "obj_type \<Rightarrow> int" where
  "threshold_warn t = (case t of FolderT \<Rightarrow> 25 | ServiceT \<Rightarrow> 50)"

definition threshold_error :: "obj_type \<Rightarrow> int" where
  "threshold_error t = (case t of FolderT \<Rightarrow> 50 | ServiceT \<Rightarrow> 70)"

subsection \<open>pad (adles.utils)\<close>

fun str_nat :: "nat \<Rightarrow> string" where
  "str_nat n =
     (if n < 10 then [''0123456789'' ! n]
      else str_nat (n div 10) @ [''0123456789'' ! (n mod 10)])"

definition str_int :: "int \<Rightarrow> string" where
  "str_int i = (if i < 0 then CHR ''-'' # str_nat (nat (- i)) else str_nat (nat i))"

text \<open>Modelled from the spec: \<open>pad\<close> is imported from \<open>adles.utils\<close>, which is not among
  the sources. The spec calls it zeroPad and shows two-digit suffixes (\<open>T-01\<close>): the
  decimal text of the number, filled with zeros on the left to two characters.\<close>

definition pad :: "int \<Rightarrow> string" where
  "pad i = replicate (2 - length (str_int i)) CHR ''0'' @ str_int i"

subsection \<open>The driver\<close>

text \<open>Modelled from the spec: the driver functions (\<open>vm_utils\<close>, \<open>futils\<close>,
  \<open>network_utils\<close>, \<open>Vsphere\<close>) are not among the sources. Their contract in the spec is
  \<open>networkExists(name)\<close>, \<open>createPortgroup(name, host, promiscuous, vlan, vswitch)\<close>,
  \<open>listNics(vm)\<close>, \<open>addNic\<close>, \<open>deleteNic(vm, index)\<close>, \<open>editNic(vm, index, network,
  summary)\<close>, \<open>hasGuestTools(vm)\<close>. A network object is identified by its name; NIC
  slots are numbered from 1, as \<open>get_nic_by_id\<close> and \<open>edit_nic\<close> are called; a number
  that is no slot of the VM changes nothing. \<open>len(list(vm.network))\<close> is the number of
  NICs (the spec: the count of existing NICs).\<close>

definition get_network :: "state \<Rightarrow> string \<Rightarrow> string option" where
  "get_network st name = (if name \<in> dom (host_nets st) then Some name else None)"

definition create_portgroup :: "string \<Rightarrow> bool \<Rightarrow> int \<Rightarrow> string \<Rightarrow> state \<Rightarrow> state" where
  "create_portgroup name promiscuous vlan vswitch st =
     record_call (CreatePortgroup name promiscuous vlan vswitch)
       (st\<lparr>host_nets := (host_nets st)(name \<mapsto>
          \<lparr>pg_promiscuous = promiscuous, pg_vlan = vlan, pg_vswitch = vswitch\<rparr>)\<rparr>)"

definition num_nics_of :: "state \<Rightarrow> path \<Rightarrow> nat" where
  "num_nics_of st h = length (vm_nics (vms st h))"

definition has_tools :: "state \<Rightarrow> path \<Rightarrow> bool" where
  "has_tools st h = vm_tools (vms st h)"

definition set_nics :: "path \<Rightarrow> nic list \<Rightarrow> state \<Rightarrow> state" where
  "set_nics h ns st = st\<lparr>vms := (vms st)(h := (vms st h)\<lparr>vm_nics := ns\<rparr>)\<rparr>"

definition delete_nic :: "path \<Rightarrow> nat \<Rightarrow> state \<Rightarrow> state" where
  "delete_nic h n st =
     record_call (DeleteNic h n)
       (if 1 \<le> n \<and> n \<le> num_nics_of st h
        then set_nics h (take (n - 1) (vm_nics (vms st h)) @ drop n (vm_nics (vms st h))) st
        else st)"

definition add_nic :: "path \<Rightarrow> string option \<Rightarrow> string \<Rightarrow> string \<Rightarrow> state \<Rightarrow> state" where
  "add_nic h network model summary st =
     record_call (AddNic h network model summary)
       (set_nics h (vm_nics (vms st h) @ [\<lparr>nic_backing = network, nic_summary = summary\<rparr>]) st)"

definition get_nic_by_id :: "state \<Rightarrow> path \<Rightarrow> nat \<Rightarrow> nic option" where
  "get_nic_by_id st h i =
     (if 1 \<le> i \<and> i \<le> num_nics_of st h then Some (vm_nics (vms st h) ! (i - 1)) else None)"

definition edit_nic :: "path \<Rightarrow> nat \<Rightarrow> string option \<Rightarrow> string \<Rightarrow> state \<Rightarrow> state" where
  "edit_nic h i port_group summary st =
     record_call (EditNic h i port_group summary)
       (if 1 \<le> i \<and> i \<le> num_nics_of st h
        then set_nics h ((vm_nics (vms st h))[i - 1 :=
               \<lparr>nic_backing = port_group, nic_summary = summary\<rparr>]) st
        else st)"

subsection \<open>\_instances\_handler\<close>

text \<open>
  The dictionary handed in is read under the key \<open>instances\<close> only, so the model takes
  the value of that key (\<open>None\<close> when the key is absent). The record logged for an unknown
  directive leaves out its argument, the text of the directive.
  Both threshold branches pass \<open>self.__name__\<close> to the logger. \<open>__name__\<close> is an
  attribute of the class object, found through its metaclass; it is not found on an
  instance, and neither \<open>VsphereInterface\<close> nor \<open>__init__\<close> defines one. Evaluating the
  argument list therefore raises \<open>AttributeError\<close> before the logger is called.
\<close>

definition self_name :: "error + string" where
  "self_name = Inl AttributeError"

definition instances_handler ::
  "instances_t option \<Rightarrow> string \<Rightarrow> obj_type \<Rightarrow> state \<Rightarrow> (error + int \<times> string) \<times> state" where
  "instances_handler spec_instances obj_name obj_ty st =
     (let (num, prefix, st1) =
        (case spec_instances of
           None \<Rightarrow> (1, '''', st)
         | Some (InstInt n) \<Rightarrow> (n, '''', st)
         | Some (InstDict p number size_of) \<Rightarrow>
             (let prefix = (case p of Some s \<Rightarrow> s | None \<Rightarrow> '''') in
              case number of
                Some n \<Rightarrow> (n, prefix, st)
              | None \<Rightarrow>
                  (case size_of of
                     Some g \<Rightarrow> (1, prefix, st)
                   | None \<Rightarrow>
                       (0, prefix,
                        log ERROR ''Unknown instances specification: %s'' [] st))))
      in
      if num > threshold_error obj_ty then
        (case self_name of
           Inl e \<Rightarrow> (Inl e, st1)
         | Inr nm \<Rightarrow>
             (Inl ThresholdException,
              log ERROR ''%d instances of %s %s is beyond the configured %s threshold of %d''
                [AInt num, AStr (obj_type_name obj_ty), AStr obj_name, AStr nm,
                 AInt (threshold_error obj_ty)] st1))
      else if num > threshold_warn obj_ty then
        (case self_name of
           Inl e \<Rightarrow> (Inl e, st1)
         | Inr nm \<Rightarrow>
             (Inr (num, prefix),
              log WARNING ''%d instances of %s %s is beyond the configured %s threshold of %d''
                [AInt num, AStr (obj_type_name obj_ty), AStr obj_name, AStr nm,
                 AInt (threshold_warn obj_ty)] st1))
      else (Inr (num, prefix), st1))"

subsection \<open>\_is\_enabled, \_is\_vsphere, \_get\_group, \_path\<close>

definition is_enabled :: "bool option \<Rightarrow> bool" where
  "is_enabled spec_enabled = (case spec_enabled of Some b \<Rightarrow> b | None \<Rightarrow> True)"

text \<open>The value under the key \<open>enabled\<close> of a walked dictionary, if the key is there.\<close>

fun get_enabled :: "entry list \<Rightarrow> bool option" where
  "get_enabled [] = None"
| "get_enabled (Enabled b # es) = Some b"
| "get_enabled (e # es) = get_enabled es"

fun get_instances :: "entry list \<Rightarrow> instances_t option" where
  "get_instances [] = None"
| "get_instances (Instances i # es) = Some i"
| "get_instances (e # es) = get_instances es"

definition is_vsphere :: "iface \<Rightarrow> string \<Rightarrow> state \<Rightarrow> bool \<times> state" where
  "is_vsphere ifc service_name st =
     (case map_of (self_services ifc) service_name of
        None \<Rightarrow>
          (False, log ERROR ''Could not find service %s in list of services''
                    [AStr service_name] st)
      | Some d \<Rightarrow> (if sd_template d \<noteq> None then (True, st) else (False, st)))"

definition get_group :: "iface \<Rightarrow> string \<Rightarrow> state \<Rightarrow> state" where
  "get_group ifc group_name st =
     (if group_name \<in> set (self_groups ifc) then st
      else log ERROR ''Could not get group %s from VsphereInterface groups''
             [AStr group_name] st)"

definition path_ext :: "string \<Rightarrow> string \<Rightarrow> string" where
  "path_ext p name = p @ ''/'' @ master_prefix @ name"

subsection \<open>Networks: \_determine\_net\_type, \_get\_vlan, \_get\_net\<close>

definition determine_net_type :: "iface \<Rightarrow> string \<Rightarrow> state \<Rightarrow> string \<times> state" where
  "determine_net_type ifc network_label st =
     (case find (\<lambda>(net_name, net_value). network_label \<in> set (map fst net_value))
             (self_networks ifc) of
        Some (net_name, net_value) \<Rightarrow> (net_name, st)
      | None \<Rightarrow>
          ('''', log ERROR ''Could not find type for network %s'' [AStr network_label] st))"

text \<open>A generator over \<open>range(i, n)\<close> is its position; \<open>next\<close> yields the position and
  moves it. \<open>_get_vlan()\<close> is a generator function: each call returns a new generator
  that starts at 2000.\<close>

datatype range_gen = RangeGen int int

fun gen_next :: "range_gen \<Rightarrow> (error + int) \<times> range_gen" where
  "gen_next (RangeGen i n) =
     (if i < n then (Inr i, RangeGen (i + 1) n) else (Inl StopIteration, RangeGen i n))"

definition get_vlan :: range_gen where
  "get_vlan = RangeGen 2000 4096"

definition get_net :: "iface \<Rightarrow> string \<Rightarrow> int \<Rightarrow> state \<Rightarrow> (error + string) \<times> state" where
  "get_net ifc name instance st =
     (let (net_type, st1) = determine_net_type ifc name st in
      if net_type = ''unique-networks'' then (Inr name, st1)
      else if net_type = ''generic-networks'' then
        (if instance = - 1 then
           (Inl ValueError, log ERROR ''Invalid instance for _get_net: %d'' [AInt instance] st1)
         else
           (let net_name = name @ ''-GENERIC-'' @ pad instance in
            if net_name \<notin> dom (net_table st1) then
              (case get_network st1 net_name of
                 Some exists \<Rightarrow>
                   (Inr net_name,
                    (log DEBUG ''PortGroup %s already exists on host %s''
                       [AStr net_name, AStr (host_name ifc)] st1)
                    \<lparr>net_table := (net_table st1)(net_name \<mapsto> True)\<rparr>)
               | None \<Rightarrow>
                   (let st2 = log DEBUG ''Creating portgroup %s on host %s''
                                [AStr net_name, AStr (host_name ifc)] st1 in
                    case map_of (self_networks ifc) ''generic-networks'' of
                      None \<Rightarrow> (Inl KeyError, st2)
                    | Some generic \<Rightarrow>
                        (case map_of generic name of
                           None \<Rightarrow> (Inl KeyError, st2)
                         | Some config \<Rightarrow>
                             (let vsw = (case nc_vswitch config of
                                           Some v \<Rightarrow> v | None \<Rightarrow> vswitch_name ifc) in
                              case fst (gen_next get_vlan) of
                                Inl e \<Rightarrow> (Inl e, st2)
                              | Inr vlan \<Rightarrow>
                                  (let st3 = create_portgroup net_name False vlan vsw st2 in
                                   (Inr net_name,
                                    st3\<lparr>net_table := (net_table st3)(net_name \<mapsto> True)\<rparr>))))))
            else (Inr net_name, st1)))
      else
        (Inl TypeError,
         log ERROR ''Invalid network type %s for network %s'' [AStr net_type, AStr name] st1))"

subsection \<open>\_create\_master\_networks\<close>

fun create_master_networks_loop ::
  "iface \<Rightarrow> bool \<Rightarrow> (string \<times> net_config) list \<Rightarrow> state \<Rightarrow> (error + unit) \<times> state" where
  "create_master_networks_loop ifc default_create [] st = (Inr (), st)"
| "create_master_networks_loop ifc default_create ((name, config) # rest) st =
     (case get_network st name of
        Some exists \<Rightarrow>
          create_master_networks_loop ifc default_create rest
            (log DEBUG ''PortGroup %s already exists on host %s''
               [AStr name, AStr (host_name ifc)] st)
      | None \<Rightarrow>
          (let st1 = log WARNING ''PortGroup %s does not exist on host %s''
                       [AStr name, AStr (host_name ifc)] st in
           if default_create then
             (let st2 = log DEBUG ''Creating portgroup %s on host %s''
                          [AStr name, AStr (host_name ifc)] st1 in
              case fst (gen_next get_vlan) of
                Inl e \<Rightarrow> (Inl e, st2)
              | Inr fresh \<Rightarrow>
                  create_master_networks_loop ifc default_create rest
                    (create_portgroup name False
                       (case nc_vlan config of Some v \<Rightarrow> v | None \<Rightarrow> fresh)
                       (case nc_vswitch config of Some v \<Rightarrow> v | None \<Rightarrow> vswitch_name ifc)
                       st2))
           else create_master_networks_loop ifc default_create rest st1))"

definition create_master_networks ::
  "iface \<Rightarrow> string \<Rightarrow> bool \<Rightarrow> state \<Rightarrow> (error + unit) \<times> state" where
  "create_master_networks ifc net_type default_create st =
     (let st1 = log INFO ''Creating %s'' [AStr net_type] st in
      case map_of (self_networks ifc) net_type of
        None \<Rightarrow> (Inl KeyError, st1)
      | Some nets \<Rightarrow> create_master_networks_loop ifc default_create nets st1)"

subsection \<open>\_configure\_nics\<close>

definition obj_name :: "path \<Rightarrow> string" where
  "obj_name h = (if h = [] then [] else last h)"

text \<open>The removal loop: \<open>nic\<close> runs over \<open>reversed(range(num_nics))\<close>, cut to \<open>diff\<close>
  values by the \<open>zip\<close>.\<close>

fun delete_nics :: "path \<Rightarrow> nat list \<Rightarrow> state \<Rightarrow> state" where
  "delete_nics h [] st = st"
| "delete_nics h (nic # rest) st = delete_nics h rest (delete_nic h nic st)"

text \<open>The loop that adds NICs. \<open>nets = networks\<close> binds a second name to the list the
  caller passed; \<open>nets.pop()\<close> takes the last element off that one list, so the list at
  the address \<open>networks\<close> is shortened.\<close>

fun add_nics :: "path \<Rightarrow> nat \<Rightarrow> nat \<Rightarrow> state \<Rightarrow> (error + unit) \<times> state" where
  "add_nics h networks 0 st = (Inr (), st)"
| "add_nics h networks (Suc k) st =
     (let nic_model = (if has_tools st h then ''vmxnet3'' else ''e1000'') in
      if store st networks = [] then (Inl IndexError, st)
      else
        (let net_name = last (store st networks);
             st1 = st\<lparr>store := (store st)(networks := butlast (store st networks))\<rparr>
         in add_nics h networks k
              (add_nic h (get_network st1 net_name) nic_model net_name st1)))"

text \<open>The loop that edits the interfaces, over \<open>zip(networks, range(1, num_nets + 1))\<close>.
  \<open>get_nic_by_id\<close> answers \<open>None\<close> for a slot the VM does not have, and \<open>.backing\<close> of
  \<open>None\<close> raises.\<close>

fun edit_nics ::
  "iface \<Rightarrow> path \<Rightarrow> int option \<Rightarrow> (string \<times> nat) list \<Rightarrow> state \<Rightarrow> (error + unit) \<times> state" where
  "edit_nics ifc h instance [] st = (Inr (), st)"
| "edit_nics ifc h instance ((net_name, i) # rest) st =
     (case (case instance of
              None \<Rightarrow> (Inr net_name, st)
            | Some inst \<Rightarrow> get_net ifc net_name inst st) of
        (Inl e, st1) \<Rightarrow> (Inl e, st1)
      | (Inr net_name', st1) \<Rightarrow>
          (let network = get_network st1 net_name';
               st2 = record_call (GetNicById h i) st1 in
           case get_nic_by_id st2 h i of
             None \<Rightarrow> (Inl AttributeError, st2)
           | Some n \<Rightarrow>
               if nic_backing n = network then edit_nics ifc h instance rest st2
               else edit_nics ifc h instance rest (edit_nic h i network net_name' st2)))"

text \<open>Lines 344 to 364: the NIC count is brought towards the number of networks. The
  result is the local \<open>num_nets\<close> as the editing loop will read it; after NICs were
  added it is \<open>len(networks)\<close> of the shortened list.\<close>

definition reconcile_count :: "path \<Rightarrow> nat \<Rightarrow> state \<Rightarrow> (error + nat) \<times> state" where
  "reconcile_count h networks st =
     (let st0 = log DEBUG ''Editing NICs for VM %s'' [AStr (obj_name h)] st;
          num_nics = num_nics_of st0 h;
          num_nets = length (store st0 networks)
      in
      if num_nics > num_nets then
        (let diff = num_nics - num_nets;
             st1 = log DEBUG ''VM %s has %d extra NICs, removing...''
                     [AStr (obj_name h), AInt (int diff)] st0
         in (Inr num_nets,
             delete_nics h (map snd (zip [1..<diff + 1] (rev [0..<num_nics]))) st1))
      else if num_nics < num_nets then
        (let diff = num_nets - num_nics;
             st1 = log DEBUG ''VM %s is deficient %d NICs, adding...''
                     [AStr (obj_name h), AInt (int diff)] st0
         in case add_nics h networks diff st1 of
              (Inl e, st2) \<Rightarrow> (Inl e, st2)
            | (Inr u, st2) \<Rightarrow> (Inr (length (store st2 networks)), st2))
      else (Inr num_nets, st0))"

definition configure_nics ::
  "iface \<Rightarrow> path \<Rightarrow> nat \<Rightarrow> int option \<Rightarrow> state \<Rightarrow> (error + unit) \<times> state" where
  "configure_nics ifc h networks instance st =
     (case reconcile_count h networks st of
        (Inl e, st2) \<Rightarrow> (Inl e, st2)
      | (Inr num_nets, st2) \<Rightarrow>
          edit_nics ifc h instance (zip (store st2 networks) [1..<num_nets + 1]) st2)"

subsection \<open>Folders and virtual machines of the inventory\<close>

text \<open>Modelled from the spec: \<open>createFolder(name, parent) -> handle\<close>,
  \<open>findByPath(root, path) -> handle?\<close>, \<open>cloneVM(source, destFolder, name, cloneSpec)\<close>,
  \<open>setNote\<close>, \<open>createSnapshot\<close>. A handle is the object's path; a path string is cut at
  every \<open>/\<close> and empty parts are dropped; a clone has the NICs of its source.\<close>

definition create_folder :: "string \<Rightarrow> path \<Rightarrow> state \<Rightarrow> path \<times> state" where
  "create_folder name create_in st =
     (create_in @ [name],
      record_call (CreateFolder name create_in)
        (if create_in @ [name] \<in> dom (inventory st) then st
         else st\<lparr>inventory := (inventory st)(create_in @ [name] \<mapsto> FolderK)\<rparr>))"

fun split_path :: "string \<Rightarrow> string \<Rightarrow> string list" where
  "split_path cur [] = (if cur = [] then [] else [cur])"
| "split_path cur (c # cs) =
     (if c = CHR ''/'' then (if cur = [] then [] else [cur]) @ split_path [] cs
      else split_path (cur @ [c]) cs)"

definition traverse_path :: "path \<Rightarrow> string \<Rightarrow> state \<Rightarrow> path option \<times> state" where
  "traverse_path folder p st =
     ((if folder @ split_path [] p \<in> dom (inventory st)
       then Some (folder @ split_path [] p) else None),
      record_call (TraversePath folder p) st)"

definition clone_vm :: "path \<Rightarrow> path \<Rightarrow> string \<Rightarrow> state \<Rightarrow> state" where
  "clone_vm src folder name st =
     record_call (CloneVm src folder name)
       (if inventory st src = Some VmK \<and> folder @ [name] \<notin> dom (inventory st)
        then st\<lparr>inventory := (inventory st)(folder @ [name] \<mapsto> VmK),
                vms := (vms st)(folder @ [name] := vms st src)\<rparr>
        else st)"

definition set_note :: "path \<Rightarrow> string \<Rightarrow> state \<Rightarrow> state" where
  "set_note v note st = record_call (SetNote v note) st"

definition create_snapshot :: "path \<Rightarrow> string \<Rightarrow> string \<Rightarrow> state \<Rightarrow> state" where
  "create_snapshot v name description st = record_call (CreateSnapshot v name description) st"

definition py_range :: "int \<Rightarrow> int list" where
  "py_range n = map int [0..<nat n]"

subsection \<open>Master mode\<close>

definition clone_service ::
  "iface \<Rightarrow> path \<Rightarrow> string \<Rightarrow> state \<Rightarrow> (error + path option) \<times> state" where
  "clone_service ifc folder service_name st =
     (case is_vsphere ifc service_name st of
        (False, st1) \<Rightarrow>
          (Inr None, log DEBUG ''Skipping non-vsphere service %s'' [AStr service_name] st1)
      | (True, st1) \<Rightarrow>
          (case map_of (self_services ifc) service_name of
             None \<Rightarrow> (Inl KeyError, st1)
           | Some config \<Rightarrow>
               (let st2 = log DEBUG ''Cloning service %s'' [AStr service_name] st1;
                    vm_name = master_prefix @ service_name
                in case sd_template config of
                     None \<Rightarrow> (Inl KeyError, st2)
                   | Some tmpl \<Rightarrow>
                       (case traverse_path (template_folder ifc) tmpl st2 of
                          (None, st3) \<Rightarrow>
                            (Inr None,
                             log ERROR ''Could not find template %s for service %s''
                               [AStr tmpl, AStr service_name] st3)
                        | (Some template, st3) \<Rightarrow>
                            (case traverse_path folder vm_name
                                    (clone_vm template folder vm_name st3) of
                               (Some v, st5) \<Rightarrow>
                                 (let st6 = log DEBUG
                                        ''Successfully cloned service %s to folder %s''
                                        [AStr service_name, AStr (obj_name folder)] st5
                                  in (Inr (Some v),
                                      (case sd_note config of
                                         Some note \<Rightarrow> set_note v note st6
                                       | None \<Rightarrow> st6)))
                             | (None, st5) \<Rightarrow>
                                 (Inr None,
                                  log ERROR ''Failed to clone VM %s for service %s''
                                    [AStr vm_name, AStr service_name] st5))))))"

fun master_services ::
  "iface \<Rightarrow> string \<Rightarrow> path \<Rightarrow> (string \<times> service_inst) list \<Rightarrow> state
     \<Rightarrow> (error + unit) \<times> state" where
  "master_services ifc folder_name parent [] st = (Inr (), st)"
| "master_services ifc folder_name parent ((sname, sconfig) # rest) st =
     (case is_vsphere ifc (si_service sconfig) st of
        (False, st1) \<Rightarrow>
          master_services ifc folder_name parent rest
            (log DEBUG ''Skipping non-vsphere service %s'' [AStr sname] st1)
      | (True, st1) \<Rightarrow>
          (case clone_service ifc parent (si_service sconfig)
                  (log INFO ''Creating Master instance %s from service %s''
                     [AStr sname, AStr (si_service sconfig)] st1) of
             (Inl e, st3) \<Rightarrow> (Inl e, st3)
           | (Inr None, st3) \<Rightarrow>
               master_services ifc folder_name parent rest
                 (log ERROR ''Failed to create Master instance %s in folder %s''
                    [AStr sname, AStr folder_name] st3)
           | (Inr (Some v), st3) \<Rightarrow>
               (case configure_nics ifc v (si_networks sconfig) None st3 of
                  (Inl e, st4) \<Rightarrow> (Inl e, st4)
                | (Inr u, st4) \<Rightarrow>
                    master_services ifc folder_name parent rest
                      (create_snapshot v ''initial mastering snapshot''
                         ''Beginning of Master configuration'' st4))))"

definition master_base_folder_gen ::
  "iface \<Rightarrow> string \<Rightarrow> base_folder \<Rightarrow> path \<Rightarrow> state \<Rightarrow> (error + unit) \<times> state" where
  "master_base_folder_gen ifc folder_name folder_dict parent st =
     (case (case bf_master_group folder_dict of
              Some g \<Rightarrow> (Inr (), get_group ifc g st)
            | None \<Rightarrow>
                (case bf_group folder_dict of
                   Some g \<Rightarrow> (Inr (), get_group ifc g st)
                 | None \<Rightarrow> (Inl KeyError, st))) of
        (Inl e, st1) \<Rightarrow> (Inl e, st1)
      | (Inr u, st1) \<Rightarrow>
          master_services ifc folder_name parent (bf_services folder_dict) st1)"

definition master_skip_keys :: "string list" where
  "master_skip_keys = [''instances'', ''description'', ''enabled'']"

text \<open>\<open>master_items\<close> is the \<open>for\<close> loop of \<open>_master_parent_folder_gen\<close> over
  \<open>folder.items()\<close>. A folder dictionary under the key \<open>group\<close> or \<open>master-group\<close> would
  reach \<open>_get_group\<close> as a dictionary, which cannot be looked up in a dictionary
  (unhashable): \<open>TypeError\<close>.\<close>

fun master_parent_folder_gen ::
  "iface \<Rightarrow> entry list \<Rightarrow> path \<Rightarrow> state \<Rightarrow> (error + unit) \<times> state"
and master_items ::
  "iface \<Rightarrow> entry list \<Rightarrow> path \<Rightarrow> state \<Rightarrow> (error + unit) \<times> state" where
  "master_parent_folder_gen ifc folder parent st =
     (if is_enabled (get_enabled folder) then
        (Inr (), log WARNING ''Skipping disabled parent-type folder %s''
                   [AStr (obj_name parent)] st)
      else master_items ifc folder parent st)"
| "master_items ifc [] parent st = (Inr (), st)"
| "master_items ifc (Instances v # rest) parent st = master_items ifc rest parent st"
| "master_items ifc (Description v # rest) parent st = master_items ifc rest parent st"
| "master_items ifc (Enabled v # rest) parent st = master_items ifc rest parent st"
| "master_items ifc (Group g # rest) parent st =
     master_items ifc rest parent (get_group ifc g st)"
| "master_items ifc (MasterGroup g # rest) parent st =
     master_items ifc rest parent (get_group ifc g st)"
| "master_items ifc (Sub sub_name sub_value # rest) parent st =
     (if sub_name \<in> set master_skip_keys then master_items ifc rest parent st
      else if sub_name = ''group'' \<or> sub_name = ''master-group'' then (Inl TypeError, st)
      else
        (case create_folder (master_prefix @ sub_name) parent st of
           (new_folder, st1) \<Rightarrow>
             (case sub_value of
                Base b \<Rightarrow>
                  (if is_enabled (bf_enabled b) then
                     (case master_base_folder_gen ifc sub_name b new_folder
                             (log INFO ''Generating Master base-type folder %s''
                                [AStr sub_name] st1) of
                        (Inl e, st2) \<Rightarrow> (Inl e, st2)
                      | (Inr u, st2) \<Rightarrow> master_items ifc rest parent st2)
                   else
                     master_items ifc rest parent
                       (log WARNING ''Skipping disabled base-type folder %s''
                          [AStr sub_name] st1))
              | Parent d \<Rightarrow>
                  (if is_enabled (get_enabled d) then
                     (case master_parent_folder_gen ifc d new_folder st1 of
                        (Inl e, st2) \<Rightarrow> (Inl e, st2)
                      | (Inr u, st2) \<Rightarrow>
                          master_items ifc rest parent
                            (log INFO ''Generating Master parent-type folder %s''
                               [AStr sub_name] st2))
                   else
                     master_items ifc rest parent
                       (log WARNING ''Skipping disabled parent-type folder %s''
                          [AStr sub_name] st1)))))"

subsection \<open>Deployment mode\<close>

text \<open>The inner loop of \<open>_deploy_gen_services\<close>, over \<open>range(num_instances)\<close>.\<close>

fun deploy_service_instances ::
  "iface \<Rightarrow> path \<Rightarrow> path \<Rightarrow> string \<Rightarrow> service_inst \<Rightarrow> string \<Rightarrow> int \<Rightarrow> int \<Rightarrow> int list
     \<Rightarrow> state \<Rightarrow> (error + unit) \<times> state" where
  "deploy_service_instances ifc service parent service_name val prefix num_instances
     instance [] st = (Inr (), st)"
| "deploy_service_instances ifc service parent service_name val prefix num_instances
     instance (i # rest) st =
     (let instance_name =
            prefix @ service_name @ (if num_instances > 1 then '' '' @ pad i else '''')
      in case traverse_path parent instance_name
                (clone_vm service parent instance_name st) of
           (Some v, st2) \<Rightarrow>
             (case configure_nics ifc v (si_networks val) (Some instance) st2 of
                (Inl e, st3) \<Rightarrow> (Inl e, st3)
              | (Inr u, st3) \<Rightarrow>
                  deploy_service_instances ifc service parent service_name val prefix
                    num_instances instance rest st3)
         | (None, st2) \<Rightarrow>
             deploy_service_instances ifc service parent service_name val prefix
               num_instances instance rest
               (log ERROR ''Could not find cloned instance %s in folder %s''
                  [AStr instance_name, AStr service_name, AStr (obj_name parent)] st2))"

fun deploy_gen_services ::
  "iface \<Rightarrow> (string \<times> service_inst) list \<Rightarrow> path \<Rightarrow> string \<Rightarrow> int \<Rightarrow> state
     \<Rightarrow> (error + unit) \<times> state" where
  "deploy_gen_services ifc [] parent path instance st = (Inr (), st)"
| "deploy_gen_services ifc ((service_name, val) # rest) parent path instance st =
     (case is_vsphere ifc (si_service val) st of
        (False, st1) \<Rightarrow>
          deploy_gen_services ifc rest parent path instance
            (log DEBUG ''Skipping non-vsphere service %s'' [AStr service_name] st1)
      | (True, st1) \<Rightarrow>
          (case instances_handler (si_instances val) service_name ServiceT
                  (log INFO ''Generating service %s in folder %s''
                     [AStr service_name, AStr (obj_name parent)] st1) of
             (Inl e, st3) \<Rightarrow> (Inl e, st3)
           | (Inr (num_instances, prefix), st3) \<Rightarrow>
               (case traverse_path (master_folder ifc) (path_ext path (si_service val)) st3 of
                  (None, st4) \<Rightarrow>
                    deploy_gen_services ifc rest parent path instance
                      (log ERROR
                         ''Could not find Master instance for service %s in this path: %s''
                         [AStr (si_service val), AStr path] st4)
                | (Some service, st4) \<Rightarrow>
                    (case deploy_service_instances ifc service parent service_name val
                            prefix num_instances instance (py_range num_instances) st4 of
                       (Inl e, st5) \<Rightarrow> (Inl e, st5)
                     | (Inr u, st5) \<Rightarrow>
                         deploy_gen_services ifc rest parent path instance st5))))"

text \<open>The loop of \<open>_deploy_base_folder_gen\<close> over \<open>range(num_instances)\<close>.\<close>

fun deploy_base_instances ::
  "iface \<Rightarrow> string \<Rightarrow> base_folder \<Rightarrow> path \<Rightarrow> string \<Rightarrow> string \<Rightarrow> int \<Rightarrow> int list
     \<Rightarrow> state \<Rightarrow> (error + unit) \<times> state" where
  "deploy_base_instances ifc folder_name folder_items parent path prefix num_instances
     [] st = (Inr (), st)"
| "deploy_base_instances ifc folder_name folder_items parent path prefix num_instances
     (i # rest) st =
     (let instance_name =
            (if prefix = '''' \<or> num_instances = 1 then folder_name else prefix)
            @ (if num_instances > 1 then pad i else '''')
      in case (if num_instances > 1 then create_folder instance_name parent st
               else (parent, st)) of
           (new_folder, st1) \<Rightarrow>
             (case deploy_gen_services ifc (bf_services folder_items) new_folder
                     (path_ext path folder_name) i
                     (log INFO ''Generating services for base-type folder instance %s''
                        [AStr instance_name] st1) of
                (Inl e, st3) \<Rightarrow> (Inl e, st3)
              | (Inr u, st3) \<Rightarrow>
                  deploy_base_instances ifc folder_name folder_items parent path prefix
                    num_instances rest st3))"

definition deploy_base_folder_gen ::
  "iface \<Rightarrow> string \<Rightarrow> base_folder \<Rightarrow> path \<Rightarrow> string \<Rightarrow> state \<Rightarrow> (error + unit) \<times> state" where
  "deploy_base_folder_gen ifc folder_name folder_items parent path st =
     (case bf_group folder_items of
        None \<Rightarrow> (Inl KeyError, st)
      | Some g \<Rightarrow>
          (case instances_handler (bf_instances folder_items) folder_name FolderT
                  (get_group ifc g st) of
             (Inl e, st2) \<Rightarrow> (Inl e, st2)
           | (Inr (num_instances, prefix), st2) \<Rightarrow>
               deploy_base_instances ifc folder_name folder_items parent path prefix
                 num_instances (py_range num_instances)
                 (log INFO ''Deploying base-type folder %s'' [AStr folder_name] st2)))"

definition deploy_skip_keys :: "string list" where
  "deploy_skip_keys = [''instances'', ''description'', ''master-group'', ''enabled'']"

text \<open>
  \<open>deploy_items ifc spec rest\<close> is the \<open>for\<close> loop of \<open>_deploy_parent_folder_gen\<close> over
  \<open>spec.items()\<close>, with \<open>rest\<close> the entries still to visit; \<open>deploy_folder_instances\<close> is
  its inner loop over \<open>range(num_instances)\<close>. The call on line 460 is
  \<open>self._instances_handler(spec, sub_name, "folder")\<close>: it reads the key \<open>instances\<close> of
  \<open>spec\<close>, the dictionary being walked.
\<close>

function (sequential) deploy_parent_folder_gen ::
  "iface \<Rightarrow> entry list \<Rightarrow> path \<Rightarrow> string \<Rightarrow> state \<Rightarrow> (error + unit) \<times> state"
and deploy_items ::
  "iface \<Rightarrow> entry list \<Rightarrow> entry list \<Rightarrow> path \<Rightarrow> string \<Rightarrow> state \<Rightarrow> (error + unit) \<times> state"
and deploy_folder_instances ::
  "iface \<Rightarrow> string \<Rightarrow> folder \<Rightarrow> path \<Rightarrow> string \<Rightarrow> string \<Rightarrow> int \<Rightarrow> int list \<Rightarrow> state
     \<Rightarrow> (error + unit) \<times> state" where
  "deploy_parent_folder_gen ifc spec parent path st =
     (if \<not> is_enabled (get_enabled spec) then
        (Inr (), log WARNING ''Skipping disabled parent-type folder %s''
                   [AStr (obj_name parent)] st)
      else deploy_items ifc spec spec parent path st)"
| "deploy_items ifc spec [] parent path st = (Inr (), st)"
| "deploy_items ifc spec (Instances v # rest) parent path st =
     deploy_items ifc spec rest parent path st"
| "deploy_items ifc spec (Description v # rest) parent path st =
     deploy_items ifc spec rest parent path st"
| "deploy_items ifc spec (MasterGroup v # rest) parent path st =
     deploy_items ifc spec rest parent path st"
| "deploy_items ifc spec (Enabled v # rest) parent path st =
     deploy_items ifc spec rest parent path st"
| "deploy_items ifc spec (Group g # rest) parent path st =
     deploy_items ifc spec rest parent path (get_group ifc g st)"
| "deploy_items ifc spec (Sub sub_name sub_value # rest) parent path st =
     (if sub_name \<in> set deploy_skip_keys then deploy_items ifc spec rest parent path st
      else if sub_name = ''group'' then (Inl TypeError, st)
      else
        (case instances_handler (get_instances spec) sub_name FolderT
                (log DEBUG ''Deploying parent-type folder %s'' [AStr sub_name] st) of
           (Inl e, st1) \<Rightarrow> (Inl e, st1)
         | (Inr (num_instances, prefix), st1) \<Rightarrow>
             (case deploy_folder_instances ifc sub_name sub_value parent path prefix
                     num_instances (py_range num_instances) st1 of
                (Inl e, st2) \<Rightarrow> (Inl e, st2)
              | (Inr u, st2) \<Rightarrow> deploy_items ifc spec rest parent path st2)))"
| "deploy_folder_instances ifc sub_name sub_value parent path prefix num_instances [] st =
     (Inr (), st)"
| "deploy_folder_instances ifc sub_name sub_value parent path prefix num_instances
     (i # rest) st =
     (let instance_name =
            (if prefix = '''' \<or> num_instances = 1 then sub_name else prefix)
            @ (if num_instances > 1 then pad i else '''')
      in case create_folder instance_name parent st of
           (new_folder, st1) \<Rightarrow>
             (case (case sub_value of
                      Base b \<Rightarrow>
                        (if is_enabled (bf_enabled b) then
                           deploy_base_folder_gen ifc sub_name b new_folder
                             (path_ext path sub_name) st1
                         else
                           (Inr (), log WARNING ''Skipping disabled base-type folder %s''
                                      [AStr sub_name] st1))
                    | Parent d \<Rightarrow>
                        (if is_enabled (get_enabled d) then
                           deploy_parent_folder_gen ifc d new_folder
                             (path_ext path sub_name) st1
                         else
                           (Inr (), log WARNING ''Skipping disabled parent-type folder %s''
                                      [AStr sub_name] st1))) of
                (Inl e, st2) \<Rightarrow> (Inl e, st2)
              | (Inr u, st2) \<Rightarrow>
                  deploy_folder_instances ifc sub_name sub_value parent path prefix
                    num_instances rest st2))"
  by pat_completeness auto

termination
  by (relation "inv_image (less_than <*lex*> less_than <*lex*> less_than)
        (\<lambda>x. case x of
           Inl (ifc, spec, parent, path, st) \<Rightarrow> (size_list size spec, 0, 1)
         | Inr (Inl (ifc, spec, rest, parent, path, st)) \<Rightarrow> (size_list size rest, 0, 0)
         | Inr (Inr (ifc, sub_name, sub_value, parent, path, prefix, n, is, st)) \<Rightarrow>
             (size sub_value, length is, 0))") auto

subsection \<open>A small environment\<close>

text \<open>An environment to run the class on: one hypervisor-managed service \<open>web\<close> with a
  template, one foreign service, a unique and a generic network, and an inventory that
  holds the template and the two root folders.\<close>

definition empty_state :: state where
  "empty_state =
     \<lparr>inventory = Map.empty, vms = (\<lambda>h. \<lparr>vm_nics = [], vm_tools = False\<rparr>),
      host_nets = Map.empty, net_table = Map.empty, store = (\<lambda>a. []),
      calls = [], logs = []\<rparr>"

definition demo_iface :: iface where
  "demo_iface =
     \<lparr>self_services = [(''web'', \<lparr>sd_template = Some ''web-tmpl'', sd_note = None\<rparr>),
                       (''ext'', \<lparr>sd_template = None, sd_note = None\<rparr>)],
      self_networks =
        [(''unique-networks'', [(''internet'', \<lparr>nc_vlan = None, nc_vswitch = None\<rparr>)]),
         (''generic-networks'', [(''lan'', \<lparr>nc_vlan = None, nc_vswitch = None\<rparr>)])],
      self_groups = [''g''], vswitch_name = ''vs0'', host_name = ''esx'',
      master_folder = [''env'', ''MASTER-FOLDERS''], template_folder = [''templates'']\<rparr>"

definition demo_state :: state where
  "demo_state = empty_state
     \<lparr>inventory := [[''templates''] \<mapsto> FolderK, [''templates'', ''web-tmpl''] \<mapsto> VmK,
                     [''env''] \<mapsto> FolderK, [''env'', ''MASTER-FOLDERS''] \<mapsto> FolderK],
      vms := (vms empty_state)([''templates'', ''web-tmpl''] :=
               \<lparr>vm_nics = [\<lparr>nic_backing = Some ''internet'', nic_summary = ''internet''\<rparr>],
                vm_tools = True\<rparr>),
      host_nets := [''internet'' \<mapsto>
                     \<lparr>pg_promiscuous = False, pg_vlan = 10, pg_vswitch = ''vs0''\<rparr>],
      store := (store empty_state)(0 := [''internet''])\<rparr>"

definition web_inst :: service_inst where
  "web_inst = \<lparr>si_service = ''web'', si_networks = 0, si_instances = None\<rparr>"

definition base_F :: base_folder where
  "base_F = \<lparr>bf_group = Some ''g'', bf_master_group = None, bf_instances = None,
             bf_enabled = None, bf_services = [(''web'', web_inst)]\<rparr>"

text \<open>\<open>{"F": {"group": "g", "services": {"web": {"service": "web", "networks":
  ["internet"]}}}}\<close>\<close>

definition spec_F :: "entry list" where
  "spec_F = [Sub ''F'' (Base base_F)]"

text \<open>\<open>{"P": {"instances": 2, "C": {"group": "g", "services": {}}}}\<close>\<close>

definition spec_P :: "entry list" where
  "spec_P =
     [Sub ''P'' (Parent [Instances (InstInt 2),
                         Sub ''C'' (Base (base_F\<lparr>bf_services := []\<rparr>))])]"

text \<open>The state the Master walk leaves when it is let past its guard (the root marked
  \<open>enabled: false\<close>).\<close>

definition mastered_state :: state where
  "mastered_state =
     snd (master_parent_folder_gen demo_iface (Enabled False # spec_F)
            [''env'', ''MASTER-FOLDERS''] demo_state)"

text \<open>A state in which a Master of \<open>web\<close> without NICs lies directly under the Master
  root.\<close>

definition bare_master_state :: state where
  "bare_master_state = empty_state
     \<lparr>inventory := [[''env''] \<mapsto> FolderK, [''env'', ''MASTER-FOLDERS''] \<mapsto> FolderK,
                     [''env'', ''MASTER-FOLDERS'', ''(MASTER) web''] \<mapsto> VmK],
      host_nets := [''internet'' \<mapsto>
                     \<lparr>pg_promiscuous = False, pg_vlan = 10, pg_vswitch = ''vs0''\<rparr>],
      store := (store empty_state)(0 := [''internet''])\<rparr>"

subsection \<open>Reading the trace\<close>

definition is_create_portgroup :: "call \<Rightarrow> bool" where
  "is_create_portgroup c = (case c of CreatePortgroup n p v s \<Rightarrow> True | _ \<Rightarrow> False)"

definition n_creates :: "call list \<Rightarrow> nat" where
  "n_creates cs = length (filter is_create_portgroup cs)"

definition is_nic_mutation :: "call \<Rightarrow> bool" where
  "is_nic_mutation c =
     (case c of DeleteNic h n \<Rightarrow> True | AddNic h n m s \<Rightarrow> True | EditNic h i n s \<Rightarrow> True
      | _ \<Rightarrow> False)"

text \<open>The NIC slots of \<open>h\<close> that were read with \<open>get_nic_by_id\<close>, in order.\<close>

definition walked_slots :: "path \<Rightarrow> call list \<Rightarrow> nat list" where
  "walked_slots h cs =
     concat (map (\<lambda>c. case c of GetNicById h' i \<Rightarrow> (if h' = h then [i] else []) | _ \<Rightarrow> []) cs)"

text \<open>Every name registered in the NetTable of \<open>s\<close> is still registered in that of \<open>t\<close>.\<close>

definition keeps_table :: "state \<Rightarrow> state \<Rightarrow> bool" where
  "keeps_table s t = (dom (net_table s) \<subseteq> dom (net_table t))"

subsection \<open>Reconciliation as the specification words it\<close>

text \<open>
  The walk of section 4.3 of the specification, over a given list of NIC slots: for each
  slot, resolve the declared network of that slot (a generic name needs the instance
  index), skip the NIC if it already points at that network, otherwise edit its backing
  to the resolved network and set its summary. \<open>declared\<close> is the declared list as it
  was passed in.
\<close>

fun walk_slots_spec ::
  "iface \<Rightarrow> path \<Rightarrow> int option \<Rightarrow> string list \<Rightarrow> nat list \<Rightarrow> state \<Rightarrow> (error + unit) \<times> state" where
  "walk_slots_spec ifc h instance declared [] st = (Inr (), st)"
| "walk_slots_spec ifc h instance declared (slot # slots) st =
     (case (case instance of
              None \<Rightarrow> (Inr (declared ! (slot - 1)), st)
            | Some inst \<Rightarrow> get_net ifc (declared ! (slot - 1)) inst st) of
        (Inl e, st1) \<Rightarrow> (Inl e, st1)
      | (Inr resolved, st1) \<Rightarrow>
          (case get_nic_by_id st1 h slot of
             None \<Rightarrow> (Inl AttributeError, record_call (GetNicById h slot) st1)
           | Some n \<Rightarrow>
               walk_slots_spec ifc h instance declared slots
                 (if nic_backing n = get_network st1 resolved
                  then record_call (GetNicById h slot) st1
                  else edit_nic h slot (get_network st1 resolved) resolved
                         (record_call (GetNicById h slot) st1))))"

text \<open>A NIC points at the network a declared name resolves to, and that network is on
  the host.\<close>

definition points_at :: "iface \<Rightarrow> int option \<Rightarrow> state \<Rightarrow> string \<Rightarrow> nic \<Rightarrow> bool" where
  "points_at ifc instance st net_name n =
     (case (case instance of
              None \<Rightarrow> Inr net_name
            | Some inst \<Rightarrow> fst (get_net ifc net_name inst st)) of
        Inl e \<Rightarrow> False
      | Inr resolved \<Rightarrow> resolved \<in> dom (host_nets st) \<and> nic_backing n = Some resolved)"

text \<open>A VM with no NIC and the declared list \<open>["a", "b"]\<close> at address 1, both networks
  on the host; and the same VM once its two NICs are on \<open>a\<close> and \<open>b\<close>.\<close>

definition two_nets_state :: state where
  "two_nets_state = empty_state
     \<lparr>host_nets := [''a'' \<mapsto> \<lparr>pg_promiscuous = False, pg_vlan = 10, pg_vswitch = ''vs0''\<rparr>,
                     ''b'' \<mapsto> \<lparr>pg_promiscuous = False, pg_vlan = 11, pg_vswitch = ''vs0''\<rparr>],
      store := (store empty_state)(1 := [''a'', ''b''])\<rparr>"

definition configured_state :: state where
  "configured_state = two_nets_state
     \<lparr>vms := (vms two_nets_state)([''v''] :=
        \<lparr>vm_nics = [\<lparr>nic_backing = Some ''a'', nic_summary = ''a''\<rparr>,
                    \<lparr>nic_backing = Some ''b'', nic_summary = ''b''\<rparr>],
         vm_tools = False\<rparr>)\<rparr>"

text \<open>A deployed clone of \<open>web\<close> in folder instance 0 whose two NICs are already on
  \<open>internet\<close> and on the generic network of that instance; its declared list is at
  address 2.\<close>

definition deployed_state :: state where
  "deployed_state = empty_state
     \<lparr>vms := (vms empty_state)([''env'', ''F'', ''web''] :=
        \<lparr>vm_nics = [\<lparr>nic_backing = Some ''internet'', nic_summary = ''internet''\<rparr>,
                    \<lparr>nic_backing = Some ''lan-GENERIC-00'', nic_summary = ''lan-GENERIC-00''\<rparr>],
         vm_tools = True\<rparr>),
      host_nets :=
        [''internet'' \<mapsto> \<lparr>pg_promiscuous = False, pg_vlan = 10, pg_vswitch = ''vs0''\<rparr>,
         ''lan-GENERIC-00'' \<mapsto> \<lparr>pg_promiscuous = False, pg_vlan = 2000, pg_vswitch = ''vs0''\<rparr>],
      store := (store empty_state)(2 := [''internet'', ''lan''])\<rparr>"

text \<open>A service instance whose \<open>service\<close> names no entry of the services catalog.\<close>

definition ghost_inst :: service_inst where
  "ghost_inst = \<lparr>si_service = ''ghost'', si_networks = 0, si_instances = None\<rparr>"

section \<open>Properties\<close>

subsection \<open>Path mirroring\<close>

text \<open>
  C1. The claim: the path Deployment looks a Master up at is the path Master mode created
  it at, each folder adding \<open>"/" + MasterPrefix + folderName\<close> once. Evaluated for the
  base folder \<open>F\<close> with the service \<open>web\<close>: the Master VM lies at
  \<open>(MASTER) F/(MASTER) web\<close> under the Master root and is found there, but
  \<open>_deploy_parent_folder_gen\<close> extends the path by the folder name and
  \<open>_deploy_base_folder_gen\<close> extends it by the same name again, so Deployment asks for
  \<open>/(MASTER) F/(MASTER) F/(MASTER) web\<close>, finds nothing and clones nothing.
\<close>

theorem deploy_lookup_repeats_folder:
  "inventory mastered_state [''env'', ''MASTER-FOLDERS'', ''(MASTER) F'', ''(MASTER) web'']
     = Some VmK
   \<and> fst (traverse_path (master_folder demo_iface) ''/(MASTER) F/(MASTER) web'' mastered_state)
       = Some [''env'', ''MASTER-FOLDERS'', ''(MASTER) F'', ''(MASTER) web'']
   \<and> calls (snd (deploy_parent_folder_gen demo_iface spec_F [''env''] '''' mastered_state)) =
       calls mastered_state @
       [CreateFolder ''F'' [''env''],
        TraversePath [''env'', ''MASTER-FOLDERS''] ''/(MASTER) F/(MASTER) F/(MASTER) web'']"
  by code_simp

subsection \<open>The enabled guard of Master mode\<close>

text \<open>
  C2. The claim: Master mode skips a node whose \<open>enabled\<close> is false and processes a node
  whose \<open>enabled\<close> is true or absent. Evaluated: on the specification with the base folder
  \<open>F\<close> and no \<open>enabled\<close> key, \<open>_master_parent_folder_gen\<close> logs ``Skipping disabled
  parent-type folder'' and returns without a single call to the hypervisor; on the same
  specification with \<open>enabled: false\<close> at its root it creates the folder, clones the
  service and snapshots it.
\<close>

theorem master_guard_inverted:
  "fst (master_parent_folder_gen demo_iface spec_F [''env'', ''MASTER-FOLDERS''] demo_state)
     = Inr ()
   \<and> calls (snd (master_parent_folder_gen demo_iface spec_F [''env'', ''MASTER-FOLDERS'']
               demo_state)) = []
   \<and> logs (snd (master_parent_folder_gen demo_iface spec_F [''env'', ''MASTER-FOLDERS'']
              demo_state)) =
       [(WARNING, ''Skipping disabled parent-type folder %s'', [AStr ''MASTER-FOLDERS''])]
   \<and> calls mastered_state =
       [CreateFolder ''(MASTER) F'' [''env'', ''MASTER-FOLDERS''],
        TraversePath [''templates''] ''web-tmpl'',
        CloneVm [''templates'', ''web-tmpl''] [''env'', ''MASTER-FOLDERS'', ''(MASTER) F'']
          ''(MASTER) web'',
        TraversePath [''env'', ''MASTER-FOLDERS'', ''(MASTER) F''] ''(MASTER) web'',
        GetNicById [''env'', ''MASTER-FOLDERS'', ''(MASTER) F'', ''(MASTER) web''] 1,
        CreateSnapshot [''env'', ''MASTER-FOLDERS'', ''(MASTER) F'', ''(MASTER) web'']
          ''initial mastering snapshot'' ''Beginning of Master configuration'']"
  by code_simp

subsection \<open>The VLAN allocator\<close>

text \<open>
  C3. The claim: every network that takes its VLAN from the allocator gets the next
  unused tag, so two successive creations get distinct tags. Evaluated:
  \<open>next(self._get_vlan())\<close> asks a new generator each time and is 2000; two generic
  networks created one after the other by \<open>_get_net\<close> both get VLAN 2000, and so do two
  networks without a configured VLAN created by \<open>_create_master_networks\<close>.
\<close>

theorem vlan_allocator_restarts:
  "fst (gen_next get_vlan) = Inr 2000
   \<and> calls (snd (get_net demo_iface ''lan'' 1
               (snd (get_net demo_iface ''lan'' 0 empty_state)))) =
       [CreatePortgroup ''lan-GENERIC-00'' False 2000 ''vs0'',
        CreatePortgroup ''lan-GENERIC-01'' False 2000 ''vs0'']
   \<and> calls (snd (create_master_networks demo_iface ''generic-networks'' True
        (snd (create_master_networks demo_iface ''unique-networks'' True empty_state)))) =
       [CreatePortgroup ''internet'' False 2000 ''vs0'',
        CreatePortgroup ''lan'' False 2000 ''vs0'']"
  by code_simp

subsection \<open>Instance counts\<close>

text \<open>
  C4. The claim: in Deployment mode the instance count of a child folder comes from the
  child's own \<open>instances\<close> key. Evaluated: the folder \<open>P\<close> declares \<open>instances: 2\<close> and
  holds the base folder \<open>C\<close>, which declares none. One folder \<open>P\<close> is created, and two
  instance folders \<open>C00\<close> and \<open>C01\<close> of the child: the count is read from the dictionary
  that contains the child.
\<close>

theorem deploy_instances_from_enclosing_folder:
  "calls (snd (deploy_parent_folder_gen demo_iface spec_P [''env''] '''' demo_state)) =
     [CreateFolder ''P'' [''env''],
      CreateFolder ''C00'' [''env'', ''P''],
      CreateFolder ''C01'' [''env'', ''P'']]"
  by code_simp

text \<open>
  C5. The claim: a count up to the warn threshold is returned silently, a count between
  the warn and the error threshold is returned with a warning, and a count above the
  error threshold fails with the threshold error. Evaluated: 25 folders are returned; 30
  folders and 60 services (between the thresholds) raise \<open>AttributeError\<close> and log
  nothing, and so do 80 services (above the error threshold).
\<close>

theorem instances_handler_warn_band_raises:
  "instances_handler (Some (InstInt 25)) ''F'' FolderT empty_state
     = (Inr (25, ''''), empty_state)
   \<and> instances_handler (Some (InstInt 30)) ''F'' FolderT empty_state
       = (Inl AttributeError, empty_state)
   \<and> instances_handler (Some (InstInt 60)) ''web'' ServiceT empty_state
       = (Inl AttributeError, empty_state)
   \<and> instances_handler (Some (InstInt 80)) ''web'' ServiceT empty_state
       = (Inl AttributeError, empty_state)"
  by (simp add: instances_handler_def threshold_error_def threshold_warn_def self_name_def)

subsection \<open>The declared network list\<close>

text \<open>
  C9. The claim: the list of declared networks passed to NIC reconciliation is the same
  before and after the call. Evaluated: a VM without NICs and the declared list
  \<open>["internet"]\<close>; after \<open>_configure_nics\<close> the list is empty. In Deployment the services
  dictionary is walked once per instance, so of two instances of the service only the
  first gets the NIC.
\<close>

theorem configure_nics_shortens_declared_list:
  "store bare_master_state 0 = [''internet'']
   \<and> store (snd (configure_nics demo_iface [''env'', ''MASTER-FOLDERS'', ''(MASTER) web''] 0
               None bare_master_state)) 0 = []
   \<and> calls (snd (deploy_gen_services demo_iface
               [(''web'', web_inst\<lparr>si_instances := Some (InstInt 2)\<rparr>)] [''env''] '''' 0
               bare_master_state)) =
       [TraversePath [''env'', ''MASTER-FOLDERS''] ''/(MASTER) web'',
        CloneVm [''env'', ''MASTER-FOLDERS'', ''(MASTER) web''] [''env''] ''web 00'',
        TraversePath [''env''] ''web 00'',
        AddNic [''env'', ''web 00''] (Some ''internet'') ''e1000'' ''internet'',
        CloneVm [''env'', ''MASTER-FOLDERS'', ''(MASTER) web''] [''env''] ''web 01'',
        TraversePath [''env''] ''web 01'']"
  by code_simp

subsection \<open>Facts about the state, the resolver and the loops\<close>

lemma log_fields [simp]:
  "calls (log l f a st) = calls st" "vms (log l f a st) = vms st"
  "store (log l f a st) = store st" "host_nets (log l f a st) = host_nets st"
  "net_table (log l f a st) = net_table st" "inventory (log l f a st) = inventory st"
  "logs (log l f a st) = logs st @ [(l, f, a)]"
  by (simp_all add: log_def)

lemma record_call_fields [simp]:
  "calls (record_call c st) = calls st @ [c]" "vms (record_call c st) = vms st"
  "store (record_call c st) = store st" "host_nets (record_call c st) = host_nets st"
  "net_table (record_call c st) = net_table st" "inventory (record_call c st) = inventory st"
  "logs (record_call c st) = logs st"
  by (simp_all add: record_call_def)

lemma num_nics_of_cong: "vms s = vms t \<Longrightarrow> num_nics_of s h = num_nics_of t h"
  by (simp add: num_nics_of_def)

lemma get_nic_by_id_cong: "vms s = vms t \<Longrightarrow> get_nic_by_id s h i = get_nic_by_id t h i"
  by (simp add: get_nic_by_id_def num_nics_of_def)

lemma get_network_cong: "host_nets s = host_nets t \<Longrightarrow> get_network s n = get_network t n"
  by (simp add: get_network_def)

lemma determine_net_type_fst:
  "fst (determine_net_type ifc name s) = fst (determine_net_type ifc name t)"
  by (simp add: determine_net_type_def split: option.splits prod.splits)

lemma determine_net_type_hit:
  "fst (determine_net_type ifc name st) = ty \<Longrightarrow> ty \<noteq> '''' \<Longrightarrow>
   determine_net_type ifc name st = (ty, st)"
  by (auto simp: determine_net_type_def split: option.splits)

lemma generic_config:
  assumes "fst (determine_net_type ifc name st) = ''generic-networks''"
    and "distinct (map fst (self_networks ifc))"
  shows "\<exists>generic config. map_of (self_networks ifc) ''generic-networks'' = Some generic
           \<and> map_of generic name = Some config"
proof -
  from assms(1) obtain v where
    f: "find (\<lambda>(net_name, net_value). name \<in> set (map fst net_value)) (self_networks ifc)
          = Some (''generic-networks'', v)"
    by (auto simp: determine_net_type_def split: option.splits)
  then have "(''generic-networks'', v) \<in> set (self_networks ifc)" and "name \<in> set (map fst v)"
    by (auto simp: find_Some_iff dest: nth_mem)
  then have a: "map_of (self_networks ifc) ''generic-networks'' = Some v"
    and b: "map_of v name \<noteq> None"
    using assms(2) by (simp_all add: map_of_eq_None_iff)
  from b obtain config where "map_of v name = Some config" by blast
  with a show ?thesis by blast
qed

lemma get_net_registered:
  assumes g: "fst (determine_net_type ifc name st) = ''generic-networks''"
    and i: "instance \<noteq> - 1"
    and t: "name @ ''-GENERIC-'' @ pad instance \<in> dom (net_table st)"
  shows "get_net ifc name instance st = (Inr (name @ ''-GENERIC-'' @ pad instance), st)"
  using i t by (simp add: get_net_def determine_net_type_hit[OF g])

lemma get_net_first:
  assumes g: "fst (determine_net_type ifc name st) = ''generic-networks''"
    and i: "instance \<noteq> - 1"
    and d: "distinct (map fst (self_networks ifc))"
  shows "\<exists>st1. get_net ifc name instance st = (Inr (name @ ''-GENERIC-'' @ pad instance), st1)
     \<and> name @ ''-GENERIC-'' @ pad instance \<in> dom (net_table st1)
     \<and> dom (net_table st) \<subseteq> dom (net_table st1)
     \<and> n_creates (calls st1) = n_creates (calls st) +
         (if name @ ''-GENERIC-'' @ pad instance \<in> dom (net_table st)
             \<or> name @ ''-GENERIC-'' @ pad instance \<in> dom (host_nets st) then 0 else 1)"
proof -
  from generic_config[OF g d] obtain generic config where
    c: "map_of (self_networks ifc) ''generic-networks'' = Some generic"
       "map_of generic name = Some config"
    by blast
  show ?thesis
    using i c
    by (auto simp: get_net_def determine_net_type_hit[OF g] Let_def get_network_def
        create_portgroup_def get_vlan_def n_creates_def is_create_portgroup_def
        split: option.splits)
qed

lemma get_net_table_grows:
  "dom (net_table st) \<subseteq> dom (net_table (snd (get_net ifc name instance st)))"
  by (auto simp: get_net_def determine_net_type_def Let_def create_portgroup_def
      split: option.splits prod.splits sum.splits)

lemma set_nics_fields [simp]:
  "calls (set_nics h ns st) = calls st" "store (set_nics h ns st) = store st"
  "host_nets (set_nics h ns st) = host_nets st" "net_table (set_nics h ns st) = net_table st"
  "logs (set_nics h ns st) = logs st" "inventory (set_nics h ns st) = inventory st"
  by (simp_all add: set_nics_def)

lemma add_nic_fields [simp]:
  "store (add_nic h n m s st) = store st" "host_nets (add_nic h n m s st) = host_nets st"
  "calls (add_nic h n m s st) = calls st @ [AddNic h n m s]"
  by (simp_all add: add_nic_def)

lemma delete_nic_fields [simp]:
  "store (delete_nic h n st) = store st" "host_nets (delete_nic h n st) = host_nets st"
  by (simp_all add: delete_nic_def)

lemma delete_nics_store [simp]: "store (delete_nics h ns st) = store st"
  by (induction ns arbitrary: st) simp_all

lemma add_nics_store:
  "k \<le> length (store st a) \<Longrightarrow>
   \<exists>st'. add_nics h a k st = (Inr (), st')
         \<and> store st' a = take (length (store st a) - k) (store st a)"
proof (induction k arbitrary: st)
  case 0
  then show ?case by simp
next
  case (Suc k)
  let ?st1 = "st\<lparr>store := (store st)(a := butlast (store st a))\<rparr>"
  let ?st2 = "add_nic h (get_network ?st1 (last (store st a)))
                (if has_tools st h then ''vmxnet3'' else ''e1000'') (last (store st a)) ?st1"
  from Suc.prems have ne: "store st a \<noteq> []" by auto
  have s2: "store ?st2 a = butlast (store st a)" by simp
  with Suc.prems have "k \<le> length (store ?st2 a)" by simp
  from Suc.IH[OF this] obtain st' where
    r: "add_nics h a k ?st2 = (Inr (), st')"
       "store st' a = take (length (store ?st2 a) - k) (store ?st2 a)" by blast
  have "take (length (store ?st2 a) - k) (store ?st2 a)
          = take (length (store st a) - Suc k) (store st a)"
    by (simp add: s2 butlast_conv_take)
  with r ne show ?case by (simp add: Let_def)
qed

lemma reconcile_count_result:
  "\<exists>st2. reconcile_count h a st =
           (Inr (min (num_nics_of st h) (length (store st a))), st2)
         \<and> store st2 a = take (min (num_nics_of st h) (length (store st a))) (store st a)"
proof -
  let ?st0 = "log DEBUG ''Editing NICs for VM %s'' [AStr (obj_name h)] st"
  have n0: "num_nics_of ?st0 h = num_nics_of st h" by (simp add: num_nics_of_def)
  consider (more) "num_nics_of st h > length (store st a)"
    | (less) "num_nics_of st h < length (store st a)"
    | (same) "num_nics_of st h = length (store st a)" by linarith
  then show ?thesis
  proof cases
    case more
    then show ?thesis by (simp add: reconcile_count_def Let_def n0 min_def)
  next
    case less
    let ?diff = "length (store st a) - num_nics_of st h"
    let ?st1 = "log DEBUG ''VM %s is deficient %d NICs, adding...''
                  [AStr (obj_name h), AInt (int ?diff)] ?st0"
    have "?diff \<le> length (store ?st1 a)" by simp
    from add_nics_store[OF this, of h] obtain st' where
      r: "add_nics h a ?diff ?st1 = (Inr (), st')"
         "store st' a = take (length (store ?st1 a) - ?diff) (store ?st1 a)" by blast
    from less have m: "min (num_nics_of st h) (length (store st a)) = num_nics_of st h"
      by simp
    from less have d: "length (store st a) - ?diff = num_nics_of st h" by simp
    show ?thesis
      using less r by (simp add: reconcile_count_def Let_def n0 m d)
  next
    case same
    then show ?thesis by (simp add: reconcile_count_def Let_def n0)
  qed
qed

lemma get_nic_by_id_record_call [simp]:
  "get_nic_by_id (record_call c t) h i = get_nic_by_id t h i"
  by (simp add: get_nic_by_id_def num_nics_of_def)

lemma edit_nics_as_walk:
  "edit_nics ifc h instance (map (\<lambda>i. (declared ! (i - 1), i)) slots) s
     = walk_slots_spec ifc h instance declared slots s"
proof (cases "instance")
  case None
  show ?thesis unfolding None
    by (induction slots arbitrary: s) (simp_all add: Let_def split: option.splits)
next
  case (Some inst)
  show ?thesis unfolding Some
    by (induction slots arbitrary: s)
      (simp_all add: Let_def split: option.splits prod.splits sum.splits)
qed

lemma zip_take_slots:
  assumes "n \<le> length xs"
  shows "zip (take n xs) [1..<n + 1] = map (\<lambda>i. (xs ! (i - 1), i)) [1..<n + 1]"
  using assms by (auto simp: list_eq_iff_nth_eq simp del: upt_Suc)

lemma get_net_existing:
  assumes ok: "fst (get_net ifc name inst st) = Inr nm" and host: "nm \<in> dom (host_nets st)"
    and same: "host_nets s = host_nets st"
  shows "\<exists>s'. get_net ifc name inst s = (Inr nm, s') \<and> calls s' = calls s \<and> vms s' = vms s
           \<and> store s' = store s \<and> host_nets s' = host_nets s"
proof -
  let ?ty = "fst (determine_net_type ifc name st)"
  have ty_s: "fst (determine_net_type ifc name s) = ?ty"
    by (rule determine_net_type_fst)
  consider (unique) "?ty = ''unique-networks''" | (generic) "?ty = ''generic-networks''"
    | (other) "?ty \<noteq> ''unique-networks''" "?ty \<noteq> ''generic-networks''" by blast
  then show ?thesis
  proof cases
    case unique
    have a: "determine_net_type ifc name st = (''unique-networks'', st)"
      by (rule determine_net_type_hit[OF unique]) simp
    have b: "determine_net_type ifc name s = (''unique-networks'', s)"
      by (rule determine_net_type_hit) (simp_all add: ty_s unique)
    from ok have "nm = name" by (simp add: get_net_def a)
    then show ?thesis by (simp add: get_net_def b)
  next
    case generic
    have a: "determine_net_type ifc name st = (''generic-networks'', st)"
      by (rule determine_net_type_hit[OF generic]) simp
    have b: "determine_net_type ifc name s = (''generic-networks'', s)"
      by (rule determine_net_type_hit) (simp_all add: ty_s generic)
    from ok have i: "inst \<noteq> - 1" by (auto simp: get_net_def a)
    have nm: "nm = name @ ''-GENERIC-'' @ pad inst"
      using ok i
      by (auto simp: get_net_def a Let_def split: if_splits option.splits sum.splits)
    have g: "get_network s (name @ ''-GENERIC-'' @ pad inst)
               = Some (name @ ''-GENERIC-'' @ pad inst)"
      using host same nm by (simp add: get_network_def)
    show ?thesis
      using i g by (simp add: get_net_def b Let_def nm)
  next
    case other
    obtain ty st1 where d: "determine_net_type ifc name st = (ty, st1)"
      by (cases "determine_net_type ifc name st")
    with other have "ty \<noteq> ''unique-networks''" "ty \<noteq> ''generic-networks''" by simp_all
    with ok d show ?thesis by (simp add: get_net_def)
  qed
qed

lemma edit_nics_noop:
  assumes "\<forall>(net_name, i) \<in> set xs. 1 \<le> i \<and> i \<le> num_nics_of st h
             \<and> points_at ifc instance st net_name (vm_nics (vms st h) ! (i - 1))"
    and "host_nets s = host_nets st" and "vms s = vms st"
  shows "\<exists>s'. edit_nics ifc h instance xs s = (Inr (), s')
           \<and> calls s' = calls s @ map (\<lambda>(n, i). GetNicById h i) xs
           \<and> vms s' = vms s \<and> store s' = store s \<and> host_nets s' = host_nets s"
  using assms
proof (induction xs arbitrary: s)
  case Nil
  then show ?case by simp
next
  case (Cons x xs)
  obtain net_name i where x: "x = (net_name, i)" by (cases x)
  from Cons.prems(1) x have i: "1 \<le> i" "i \<le> num_nics_of st h"
    and p: "points_at ifc instance st net_name (vm_nics (vms st h) ! (i - 1))"
    and rest: "\<forall>(net_name, i) \<in> set xs. 1 \<le> i \<and> i \<le> num_nics_of st h
             \<and> points_at ifc instance st net_name (vm_nics (vms st h) ! (i - 1))"
    by auto
  from p obtain nm where
    nm: "(case instance of None \<Rightarrow> Inr net_name | Some inst \<Rightarrow> fst (get_net ifc net_name inst st))
           = Inr nm"
      "nm \<in> dom (host_nets st)" "nic_backing (vm_nics (vms st h) ! (i - 1)) = Some nm"
    by (auto simp: points_at_def split: sum.splits)
  have "\<exists>s1. (case instance of None \<Rightarrow> (Inr net_name, s)
                | Some inst \<Rightarrow> get_net ifc net_name inst s) = (Inr nm, s1)
           \<and> calls s1 = calls s \<and> vms s1 = vms s \<and> store s1 = store s
           \<and> host_nets s1 = host_nets s"
  proof (cases "instance")
    case None
    with nm(1) show ?thesis by simp
  next
    case (Some inst)
    with nm(1) have "fst (get_net ifc net_name inst st) = Inr nm" by simp
    from get_net_existing[OF this nm(2) Cons.prems(2)] Some show ?thesis by simp
  qed
  then obtain s1 where
    s1: "(case instance of None \<Rightarrow> (Inr net_name, s)
                | Some inst \<Rightarrow> get_net ifc net_name inst s) = (Inr nm, s1)"
      "calls s1 = calls s" "vms s1 = vms s" "store s1 = store s" "host_nets s1 = host_nets s"
    by blast
  let ?s2 = "record_call (GetNicById h i) s1"
  have net: "get_network s1 nm = Some nm"
    using nm(2) s1(5) Cons.prems(2) by (simp add: get_network_def)
  have nic: "get_nic_by_id ?s2 h i = Some (vm_nics (vms st h) ! (i - 1))"
    using i s1(3) Cons.prems(3) by (simp add: get_nic_by_id_def num_nics_of_def)
  have step: "edit_nics ifc h instance (x # xs) s = edit_nics ifc h instance xs ?s2"
    using s1(1) net nic nm(3) by (simp add: x Let_def)
  have "host_nets ?s2 = host_nets st" "vms ?s2 = vms st"
    using s1 Cons.prems by simp_all
  from Cons.IH[OF rest this] obtain s' where
    "edit_nics ifc h instance xs ?s2 = (Inr (), s')"
    "calls s' = calls ?s2 @ map (\<lambda>(n, i). GetNicById h i) xs"
    "vms s' = vms ?s2" "store s' = store ?s2" "host_nets s' = host_nets ?s2"
    by blast
  with step s1 show ?case by (simp add: x)
qed

lemma map_snd_of_zip:
  "length xs = length ys \<Longrightarrow> map (\<lambda>(n, i). f i) (zip xs ys) = map f ys"
  by (induction xs ys rule: list_induct2) simp_all

lemma master_services_append:
  "master_services ifc fn p (xs @ ys) st =
     (case master_services ifc fn p xs st of
        (Inl e, s) \<Rightarrow> (Inl e, s)
      | (Inr u, s) \<Rightarrow> master_services ifc fn p ys s)"
  by (induction xs arbitrary: st)
    (auto split: prod.splits sum.splits option.splits bool.splits)

lemma deploy_gen_services_append:
  "deploy_gen_services ifc (xs @ ys) parent path inst st =
     (case deploy_gen_services ifc xs parent path inst st of
        (Inl e, s) \<Rightarrow> (Inl e, s)
      | (Inr u, s) \<Rightarrow> deploy_gen_services ifc ys parent path inst s)"
  by (induction xs arbitrary: st)
    (auto split: prod.splits sum.splits option.splits bool.splits)

text \<open>The NetTable is written by \<open>_get_net\<close> only, and only by adding a key: no
  method of the walk takes a key out.\<close>

lemma keeps_table_refl [simp]: "keeps_table s s"
  by (simp add: keeps_table_def)

lemma keeps_table_trans: "keeps_table s t \<Longrightarrow> keeps_table t u \<Longrightarrow> keeps_table s u"
  by (auto simp: keeps_table_def)

lemma keeps_table_eq: "net_table t = net_table s \<Longrightarrow> keeps_table s t"
  by (simp add: keeps_table_def)

lemma prim_net_table [simp]:
  "net_table (create_portgroup pn pp pv pw st) = net_table st"
  "net_table (add_nic h nw m su st) = net_table st"
  "net_table (delete_nic h k st) = net_table st"
  "net_table (edit_nic h i nw su st) = net_table st"
  "net_table (clone_vm src fo nm st) = net_table st"
  "net_table (set_note vh note st) = net_table st"
  "net_table (create_snapshot vh nm de st) = net_table st"
  "net_table (snd (create_folder nm par st)) = net_table st"
  "net_table (snd (traverse_path fo pa st)) = net_table st"
  "net_table (get_group ifc g st) = net_table st"
  "net_table (snd (is_vsphere ifc sn st)) = net_table st"
  "net_table (snd (instances_handler io on ot st)) = net_table st"
  by (simp_all add: create_portgroup_def add_nic_def delete_nic_def edit_nic_def clone_vm_def
      set_note_def create_snapshot_def create_folder_def traverse_path_def get_group_def
      is_vsphere_def instances_handler_def Let_def self_name_def
      split: option.splits instances_t.splits)

lemma delete_nics_net_table [simp]: "net_table (delete_nics h ns st) = net_table st"
  by (induction ns arbitrary: st) simp_all

lemma add_nics_net_table [simp]: "net_table (snd (add_nics h a k st)) = net_table st"
  by (induction k arbitrary: st) (simp_all add: Let_def)

lemma add_nics_net_table_pair:
  "add_nics h a k st = (r, st') \<Longrightarrow> net_table st' = net_table st"
  using add_nics_net_table[of h a k st] by simp

lemma reconcile_count_net_table [simp]:
  "net_table (snd (reconcile_count h a st)) = net_table st"
  by (auto simp: reconcile_count_def Let_def split: prod.splits sum.splits
      dest: add_nics_net_table_pair)

lemma get_net_keeps: "keeps_table st (snd (get_net ifc name inst st))"
  using get_net_table_grows by (simp add: keeps_table_def)

lemma edit_nics_keeps: "keeps_table st (snd (edit_nics ifc h inst xs st))"
proof (induction xs arbitrary: st)
  case Nil
  then show ?case by simp
next
  case (Cons x xs)
  obtain net_name i where x: "x = (net_name, i)" by (cases x)
  obtain r s1 where r: "(case inst of None \<Rightarrow> (Inr net_name, st)
                        | Some k \<Rightarrow> get_net ifc net_name k st) = (r, s1)"
    by (cases "case inst of None \<Rightarrow> (Inr net_name, st) | Some k \<Rightarrow> get_net ifc net_name k st")
  have k1: "keeps_table st s1"
  proof (cases inst)
    case None
    with r show ?thesis by simp
  next
    case (Some k)
    with r get_net_keeps[of st ifc net_name k] show ?thesis by simp
  qed
  show ?case
  proof (cases r)
    case (Inl e)
    with r k1 show ?thesis by (simp add: x)
  next
    case (Inr nm)
    have a: "keeps_table st (record_call (GetNicById h i) s1)"
      using k1 by (simp add: keeps_table_def)
    have b: "keeps_table st (edit_nic h i (get_network s1 nm) nm (record_call (GetNicById h i) s1))"
      using k1 by (simp add: keeps_table_def)
    show ?thesis
      using r Inr a b Cons.IH
      by (auto simp: x Let_def split: option.splits intro: keeps_table_trans)
  qed
qed

lemma configure_nics_keeps: "keeps_table st (snd (configure_nics ifc h a inst st))"
proof -
  obtain r s2 where r: "reconcile_count h a st = (r, s2)" by (cases "reconcile_count h a st")
  then have "net_table s2 = net_table st"
    using reconcile_count_net_table[of h a st] by simp
  then have k: "keeps_table st s2" by (rule keeps_table_eq)
  show ?thesis
    using r k edit_nics_keeps
    by (auto simp: configure_nics_def split: sum.splits intro: keeps_table_trans)
qed


lemma clone_service_net_table [simp]:
  "net_table (snd (clone_service ifc folder sn st)) = net_table st"
  by (simp add: clone_service_def Let_def is_vsphere_def traverse_path_def clone_vm_def
      set_note_def split: option.splits prod.splits bool.splits)

lemma create_master_networks_loop_keeps:
  "net_table (snd (create_master_networks_loop ifc dc xs st)) = net_table st"
  by (induction xs arbitrary: st)
    (auto simp: Let_def split: option.splits sum.splits)

lemma master_services_keeps:
  "keeps_table st (snd (master_services ifc fn p xs st))"
proof (induction xs arbitrary: st)
  case Nil
  then show ?case by simp
next
  case (Cons x xs)
  obtain sname sconfig where x: "x = (sname, sconfig)" by (cases x)
  obtain b s1 where v: "is_vsphere ifc (si_service sconfig) st = (b, s1)"
    by (cases "is_vsphere ifc (si_service sconfig) st")
  then have n1: "net_table s1 = net_table st"
    using prim_net_table(11)[of ifc "si_service sconfig" st] by simp
  show ?case
  proof (cases b)
    case False
    have "keeps_table st (log DEBUG ''Skipping non-vsphere service %s'' [AStr sname] s1)"
      using n1 by (simp add: keeps_table_def)
    then show ?thesis
      using v False Cons.IH by (auto simp: x intro: keeps_table_trans)
  next
    case True
    let ?s2 = "log INFO ''Creating Master instance %s from service %s''
                 [AStr sname, AStr (si_service sconfig)] s1"
    obtain r s3 where c: "clone_service ifc p (si_service sconfig) ?s2 = (r, s3)"
      by (cases "clone_service ifc p (si_service sconfig) ?s2")
    then have n3: "net_table s3 = net_table st"
      using clone_service_net_table[of ifc p "si_service sconfig" ?s2] n1 by simp
    then have k3: "keeps_table st s3" by (rule keeps_table_eq)
    show ?thesis
    proof (cases r)
      case (Inl e)
      with v True c k3 show ?thesis by (simp add: x)
    next
      case (Inr vo)
      show ?thesis
      proof (cases vo)
        case None
        have "keeps_table st (log ERROR ''Failed to create Master instance %s in folder %s''
                    [AStr sname, AStr fn] s3)"
          using n3 by (simp add: keeps_table_def)
        then show ?thesis
          using v True c Inr None Cons.IH by (auto simp: x intro: keeps_table_trans)
      next
        case (Some vh)
        obtain r4 s4 where n: "configure_nics ifc vh (si_networks sconfig) None s3 = (r4, s4)"
          by (cases "configure_nics ifc vh (si_networks sconfig) None s3")
        then have "keeps_table s3 s4"
          using configure_nics_keeps[of s3 ifc vh "si_networks sconfig" None] by simp
        with k3 have k4: "keeps_table st s4" by (rule keeps_table_trans)
        then have k5: "keeps_table st (create_snapshot vh ''initial mastering snapshot''
                         ''Beginning of Master configuration'' s4)"
          by (simp add: keeps_table_def)
        show ?thesis
          using v True c Inr Some n k4 k5 Cons.IH
          by (auto simp: x split: sum.splits intro: keeps_table_trans)
      qed
    qed
  qed
qed


lemma tbl_pairs:
  "is_vsphere ifc sn st = (b, s) \<Longrightarrow> net_table s = net_table st"
  "instances_handler io on ot st = (ri, s) \<Longrightarrow> net_table s = net_table st"
  "traverse_path fo pa st = (rt, s) \<Longrightarrow> net_table s = net_table st"
  "create_folder nm par st = (rf, s) \<Longrightarrow> net_table s = net_table st"
  "clone_service ifc fo sn st = (rc, s) \<Longrightarrow> net_table s = net_table st"
  using prim_net_table(11)[of ifc sn st] prim_net_table(12)[of io on ot st]
    prim_net_table(9)[of fo pa st] prim_net_table(8)[of nm par st]
    clone_service_net_table[of ifc fo sn st]
  by simp_all

lemma configure_nics_pair:
  "configure_nics ifc h a inst st = (r, s) \<Longrightarrow> dom (net_table st) \<subseteq> dom (net_table s)"
  using configure_nics_keeps[of st ifc h a inst] by (simp add: keeps_table_def)

lemma master_services_pair:
  "master_services ifc fn p xs st = (r, s) \<Longrightarrow> dom (net_table st) \<subseteq> dom (net_table s)"
  using master_services_keeps[of st ifc fn p xs] by (simp add: keeps_table_def)

lemma master_base_folder_gen_pair:
  "master_base_folder_gen ifc fn b p st = (r, s) \<Longrightarrow> dom (net_table st) \<subseteq> dom (net_table s)"
proof -
  assume a: "master_base_folder_gen ifc fn b p st = (r, s)"
  then have "\<exists>g. master_services ifc fn p (bf_services b) (get_group ifc g st) = (r, s) \<or> s = st"
    by (auto simp: master_base_folder_gen_def split: option.splits)
  then obtain g where
    "master_services ifc fn p (bf_services b) (get_group ifc g st) = (r, s) \<or> s = st" by blast
  then show ?thesis
    using master_services_pair[of ifc fn p "bf_services b" "get_group ifc g st" r s] by auto
qed

lemma master_keeps:
  "dom (net_table st) \<subseteq> dom (net_table (snd (master_parent_folder_gen ifc folder parent st)))"
  "dom (net_table st) \<subseteq> dom (net_table (snd (master_items ifc es parent st)))"
proof (induction ifc folder parent st and ifc es parent st
    rule: master_parent_folder_gen_master_items.induct)
  case (1 ifc folder parent st)
  then show ?case by simp
next
  case (2 ifc parent st)
  then show ?case by simp
next
  case (3 ifc v rest parent st)
  then show ?case by simp
next
  case (4 ifc v rest parent st)
  then show ?case by simp
next
  case (5 ifc v rest parent st)
  then show ?case by simp
next
  case (6 ifc g rest parent st)
  from 6 show ?case by simp
next
  case (7 ifc g rest parent st)
  from 7 show ?case by simp
next
  case (8 ifc sub_name sub_value rest parent st)
  show ?case
  proof (cases "sub_name \<in> set master_skip_keys")
    case True
    with 8(1) show ?thesis by simp
  next
    case skip: False
    show ?thesis
    proof (cases "sub_name = ''group'' \<or> sub_name = ''master-group''")
      case True
      with skip show ?thesis by simp
    next
      case grp: False
      obtain new_folder st1 where cf: "create_folder (master_prefix @ sub_name) parent st = (new_folder, st1)"
        by (cases "create_folder (master_prefix @ sub_name) parent st")
      then have n1: "net_table st1 = net_table st" by (rule tbl_pairs(4))
      show ?thesis
      proof (cases sub_value)
        case (Base b)
        show ?thesis
        proof (cases "is_enabled (bf_enabled b)")
          case en: True
          let ?s = "log INFO ''Generating Master base-type folder %s'' [AStr sub_name] st1"
          obtain r st2 where m: "master_base_folder_gen ifc sub_name b new_folder ?s = (r, st2)"
            by (cases "master_base_folder_gen ifc sub_name b new_folder ?s")
          from master_base_folder_gen_pair[OF m] n1
          have k2: "dom (net_table st) \<subseteq> dom (net_table st2)" by simp
          show ?thesis
          proof (cases r)
            case (Inl e)
            with skip grp cf Base en m k2 show ?thesis by simp
          next
            case (Inr u)
            from 8(2)[OF skip grp cf[symmetric] Base en m[symmetric] Inr]
            have "dom (net_table st2) \<subseteq> dom (net_table (snd (master_items ifc rest parent st2)))"
              by simp
            with k2 skip grp cf Base en m Inr show ?thesis by auto
          qed
        next
          case dis: False
          let ?s = "log WARNING ''Skipping disabled base-type folder %s'' [AStr sub_name] st1"
          from 8(3)[OF skip grp cf[symmetric] Base dis]
          have "dom (net_table ?s) \<subseteq> dom (net_table (snd (master_items ifc rest parent ?s)))" .
          with n1 skip grp cf Base dis show ?thesis by auto
        qed
      next
        case (Parent d)
        show ?thesis
        proof (cases "is_enabled (get_enabled d)")
          case en: True
          obtain r st2 where m: "master_parent_folder_gen ifc d new_folder st1 = (r, st2)"
            by (cases "master_parent_folder_gen ifc d new_folder st1")
          from 8(4)[OF skip grp cf[symmetric] Parent en] m n1
          have k2: "dom (net_table st) \<subseteq> dom (net_table st2)" by simp
          show ?thesis
          proof (cases r)
            case (Inl e)
            with skip grp cf Parent en m k2 show ?thesis by simp
          next
            case (Inr u)
            let ?s = "log INFO ''Generating Master parent-type folder %s'' [AStr sub_name] st2"
            from 8(5)[OF skip grp cf[symmetric] Parent en m[symmetric] Inr]
            have "dom (net_table ?s) \<subseteq> dom (net_table (snd (master_items ifc rest parent ?s)))"
              by simp
            with k2 skip grp cf Parent en m Inr show ?thesis by auto
          qed
        next
          case dis: False
          let ?s = "log WARNING ''Skipping disabled parent-type folder %s'' [AStr sub_name] st1"
          from 8(6)[OF skip grp cf[symmetric] Parent dis]
          have "dom (net_table ?s) \<subseteq> dom (net_table (snd (master_items ifc rest parent ?s)))" .
          with n1 skip grp cf Parent dis show ?thesis by auto
        qed
      qed
    qed
  qed
qed

lemma deploy_service_instances_keeps:
  "dom (net_table st) \<subseteq> dom (net_table (snd (deploy_service_instances ifc service parent
      service_name val prefix num_instances inst rng st)))"
proof (induction rng arbitrary: st)
  case Nil
  then show ?case by simp
next
  case (Cons i rest)
  let ?name = "prefix @ service_name @ (if num_instances > 1 then '' '' @ pad i else '''')"
  obtain vo s2 where t: "traverse_path parent ?name (clone_vm service parent ?name st) = (vo, s2)"
    by (cases "traverse_path parent ?name (clone_vm service parent ?name st)")
  from tbl_pairs(3)[OF t] have n2: "net_table s2 = net_table st" by simp
  show ?case
  proof (cases vo)
    case None
    let ?s = "log ERROR ''Could not find cloned instance %s in folder %s''
                [AStr ?name, AStr service_name, AStr (obj_name parent)] s2"
    have "dom (net_table ?s) \<subseteq> dom (net_table (snd (deploy_service_instances ifc service
            parent service_name val prefix num_instances inst rest ?s)))"
      by (rule Cons.IH)
    with n2 t None show ?thesis by (simp add: Let_def)
  next
    case (Some v)
    obtain r s3 where c: "configure_nics ifc v (si_networks val) (Some inst) s2 = (r, s3)"
      by (cases "configure_nics ifc v (si_networks val) (Some inst) s2")
    from configure_nics_pair[OF c] n2 have k3: "dom (net_table st) \<subseteq> dom (net_table s3)"
      by simp
    show ?thesis
    proof (cases r)
      case (Inl e)
      with t Some c k3 show ?thesis by (simp add: Let_def)
    next
      case (Inr u)
      have "dom (net_table s3) \<subseteq> dom (net_table (snd (deploy_service_instances ifc service
              parent service_name val prefix num_instances inst rest s3)))"
        by (rule Cons.IH)
      with k3 t Some c Inr show ?thesis by (auto simp: Let_def)
    qed
  qed
qed

lemma deploy_gen_services_keeps:
  "dom (net_table st) \<subseteq> dom (net_table (snd (deploy_gen_services ifc svcs parent path inst st)))"
proof (induction svcs arbitrary: st)
  case Nil
  then show ?case by simp
next
  case (Cons x rest)
  obtain service_name val where x: "x = (service_name, val)" by (cases x)
  obtain b s1 where v: "is_vsphere ifc (si_service val) st = (b, s1)"
    by (cases "is_vsphere ifc (si_service val) st")
  from tbl_pairs(1)[OF v] have n1: "net_table s1 = net_table st" .
  show ?case
  proof (cases b)
    case False
    let ?s = "log DEBUG ''Skipping non-vsphere service %s'' [AStr service_name] s1"
    have "dom (net_table ?s) \<subseteq> dom (net_table (snd (deploy_gen_services ifc rest parent
            path inst ?s)))" by (rule Cons.IH)
    with n1 v False show ?thesis by (simp add: x)
  next
    case True
    let ?s2 = "log INFO ''Generating service %s in folder %s''
                 [AStr service_name, AStr (obj_name parent)] s1"
    obtain ri s3 where h: "instances_handler (si_instances val) service_name ServiceT ?s2 = (ri, s3)"
      by (cases "instances_handler (si_instances val) service_name ServiceT ?s2")
    from tbl_pairs(2)[OF h] n1 have n3: "net_table s3 = net_table st" by simp
    show ?thesis
    proof (cases ri)
      case (Inl e)
      with v True h n3 show ?thesis by (simp add: x)
    next
      case ri: (Inr np)
      obtain num_instances prefix where np: "np = (num_instances, prefix)" by (cases np)
      obtain so s4 where t: "traverse_path (master_folder ifc) (path_ext path (si_service val)) s3
                               = (so, s4)"
        by (cases "traverse_path (master_folder ifc) (path_ext path (si_service val)) s3")
      from tbl_pairs(3)[OF t] n3 have n4: "net_table s4 = net_table st" by simp
      show ?thesis
      proof (cases so)
        case None
        let ?s = "log ERROR ''Could not find Master instance for service %s in this path: %s''
                    [AStr (si_service val), AStr path] s4"
        have "dom (net_table ?s) \<subseteq> dom (net_table (snd (deploy_gen_services ifc rest parent
                path inst ?s)))" by (rule Cons.IH)
        with n4 v True h ri np t None show ?thesis by (simp add: x)
      next
        case (Some service)
        obtain r s5 where d: "deploy_service_instances ifc service parent service_name val
                 prefix num_instances inst (py_range num_instances) s4 = (r, s5)"
          by (cases "deploy_service_instances ifc service parent service_name val
                 prefix num_instances inst (py_range num_instances) s4")
        from deploy_service_instances_keeps[of s4 ifc service parent service_name val prefix
            num_instances inst "py_range num_instances"] d n4
        have k5: "dom (net_table st) \<subseteq> dom (net_table s5)" by simp
        show ?thesis
        proof (cases r)
          case (Inl e)
          with v True h ri np t Some d k5 show ?thesis by (simp add: x)
        next
          case (Inr u)
          have "dom (net_table s5) \<subseteq> dom (net_table (snd (deploy_gen_services ifc rest parent
                  path inst s5)))" by (rule Cons.IH)
          with k5 v True h ri np t Some d Inr show ?thesis by (auto simp: x)
        qed
      qed
    qed
  qed
qed

lemma deploy_base_instances_keeps:
  "dom (net_table st) \<subseteq> dom (net_table (snd (deploy_base_instances ifc folder_name
      folder_items parent path prefix num_instances rng st)))"
proof (induction rng arbitrary: st)
  case Nil
  then show ?case by simp
next
  case (Cons i rest)
  let ?name = "(if prefix = '''' \<or> num_instances = 1 then folder_name else prefix)
                 @ (if num_instances > 1 then pad i else '''')"
  obtain new_folder s1 where f: "(if num_instances > 1 then create_folder ?name parent st
                                   else (parent, st)) = (new_folder, s1)"
    by (cases "if num_instances > 1 then create_folder ?name parent st else (parent, st)")
  have n1: "net_table s1 = net_table st"
    using f tbl_pairs(4)[of ?name parent st new_folder s1] by (auto split: if_splits)
  let ?s2 = "log INFO ''Generating services for base-type folder instance %s'' [AStr ?name] s1"
  obtain r s3 where g: "deploy_gen_services ifc (bf_services folder_items) new_folder
                          (path_ext path folder_name) i ?s2 = (r, s3)"
    by (cases "deploy_gen_services ifc (bf_services folder_items) new_folder
                          (path_ext path folder_name) i ?s2")
  from deploy_gen_services_keeps[of ?s2 ifc "bf_services folder_items" new_folder
      "path_ext path folder_name" i] g n1
  have k3: "dom (net_table st) \<subseteq> dom (net_table s3)" by simp
  show ?case
  proof (cases r)
    case (Inl e)
    with f g k3 show ?thesis by (simp add: Let_def)
  next
    case (Inr u)
    have "dom (net_table s3) \<subseteq> dom (net_table (snd (deploy_base_instances ifc folder_name
            folder_items parent path prefix num_instances rest s3)))" by (rule Cons.IH)
    with k3 f g Inr show ?thesis by (auto simp: Let_def)
  qed
qed

lemma deploy_base_folder_gen_keeps:
  "dom (net_table st) \<subseteq> dom (net_table (snd (deploy_base_folder_gen ifc folder_name
      folder_items parent path st)))"
proof (cases "bf_group folder_items")
  case None
  then show ?thesis by (simp add: deploy_base_folder_gen_def)
next
  case (Some g)
  obtain ri s2 where h: "instances_handler (bf_instances folder_items) folder_name FolderT
                           (get_group ifc g st) = (ri, s2)"
    by (cases "instances_handler (bf_instances folder_items) folder_name FolderT
                 (get_group ifc g st)")
  from tbl_pairs(2)[OF h] have n2: "net_table s2 = net_table st" by simp
  show ?thesis
  proof (cases ri)
    case (Inl e)
    with Some h n2 show ?thesis by (simp add: deploy_base_folder_gen_def)
  next
    case (Inr np)
    obtain num_instances prefix where np: "np = (num_instances, prefix)" by (cases np)
    let ?s = "log INFO ''Deploying base-type folder %s'' [AStr folder_name] s2"
    from deploy_base_instances_keeps[of ?s ifc folder_name folder_items parent path prefix
        num_instances "py_range num_instances"] n2
    show ?thesis using Some h Inr np by (simp add: deploy_base_folder_gen_def)
  qed
qed

lemma deploy_keeps:
  "dom (net_table st) \<subseteq> dom (net_table (snd (deploy_parent_folder_gen ifc spec parent path st)))"
  "dom (net_table st) \<subseteq> dom (net_table (snd (deploy_items ifc spec es parent path st)))"
  "dom (net_table st) \<subseteq> dom (net_table (snd (deploy_folder_instances ifc sub_name sub_value
      parent path prefix num_instances rng st)))"
proof (induction ifc spec parent path st and ifc spec es parent path st
    and ifc sub_name sub_value parent path prefix num_instances rng st
    rule: deploy_parent_folder_gen_deploy_items_deploy_folder_instances.induct)
  case (1 ifc spec parent path st)
  then show ?case by simp
next
  case (2 ifc spec parent path st)
  then show ?case by simp
next
  case (3 ifc spec v rest parent path st)
  then show ?case by simp
next
  case (4 ifc spec v rest parent path st)
  then show ?case by simp
next
  case (5 ifc spec v rest parent path st)
  then show ?case by simp
next
  case (6 ifc spec v rest parent path st)
  then show ?case by simp
next
  case (7 ifc spec g rest parent path st)
  then show ?case by simp
next
  case (8 ifc spec sub_name sub_value rest parent path st)
  show ?case
  proof (cases "sub_name \<in> set deploy_skip_keys")
    case True
    with 8(1) show ?thesis by simp
  next
    case skip: False
    show ?thesis
    proof (cases "sub_name = ''group''")
      case True
      with skip show ?thesis by simp
    next
      case grp: False
      let ?s0 = "log DEBUG ''Deploying parent-type folder %s'' [AStr sub_name] st"
      obtain ri s1 where h: "instances_handler (get_instances spec) sub_name FolderT ?s0 = (ri, s1)"
        by (cases "instances_handler (get_instances spec) sub_name FolderT ?s0")
      from tbl_pairs(2)[OF h] have n1: "net_table s1 = net_table st" by simp
      show ?thesis
      proof (cases ri)
        case (Inl e)
        with skip grp h n1 show ?thesis by simp
      next
        case ri: (Inr np)
        obtain n p where np: "np = (n, p)" by (cases np)
        obtain r2 s2 where d: "deploy_folder_instances ifc sub_name sub_value parent path p n
                                 (py_range n) s1 = (r2, s2)"
          by (cases "deploy_folder_instances ifc sub_name sub_value parent path p n
                       (py_range n) s1")
        from 8(2)[OF skip grp h[symmetric] ri np[symmetric]] d n1
        have k2: "dom (net_table st) \<subseteq> dom (net_table s2)" by simp
        show ?thesis
        proof (cases r2)
          case (Inl e)
          with skip grp h ri np d k2 show ?thesis by simp
        next
          case (Inr u)
          from 8(3)[OF skip grp h[symmetric] ri np[symmetric] d[symmetric] Inr]
          have "dom (net_table s2) \<subseteq> dom (net_table (snd (deploy_items ifc spec rest parent
                  path s2)))" .
          with k2 skip grp h ri np d Inr show ?thesis by auto
        qed
      qed
    qed
  qed
next
  case (9 ifc sub_name sub_value parent path prefix num_instances st)
  then show ?case by simp
next
  case (10 ifc sub_name sub_value parent path prefix num_instances i rest st)
  let ?name = "(if prefix = [] \<or> num_instances = 1 then sub_name else prefix)
                 @ (if 1 < num_instances then pad i else [])"
  obtain new_folder s1 where cf: "create_folder ?name parent st = (new_folder, s1)"
    by (cases "create_folder ?name parent st")
  from tbl_pairs(4)[OF cf] have n1: "net_table s1 = net_table st" .
  let ?body = "case sub_value of
            Base b \<Rightarrow>
              if is_enabled (bf_enabled b)
              then deploy_base_folder_gen ifc sub_name b new_folder (path_ext path sub_name) s1
              else (Inr (), log WARNING ''Skipping disabled base-type folder %s''
                              [AStr sub_name] s1)
            | Parent d \<Rightarrow>
                if is_enabled (get_enabled d)
                then deploy_parent_folder_gen ifc d new_folder (path_ext path sub_name) s1
                else (Inr (), log WARNING ''Skipping disabled parent-type folder %s''
                                [AStr sub_name] s1)"
  obtain rb s2 where b: "?body = (rb, s2)" by (cases ?body)
  have k2: "dom (net_table st) \<subseteq> dom (net_table s2)"
  proof (cases sub_value)
    case (Base bf)
    show ?thesis
    proof (cases "is_enabled (bf_enabled bf)")
      case True
      with b Base n1
        deploy_base_folder_gen_keeps[of s1 ifc sub_name bf new_folder "path_ext path sub_name"]
      show ?thesis by simp
    next
      case False
      with b Base n1 show ?thesis by auto
    qed
  next
    case (Parent d)
    show ?thesis
    proof (cases "is_enabled (get_enabled d)")
      case True
      from 10(1)[OF refl cf[symmetric] Parent True] b Parent True n1
      show ?thesis by simp
    next
      case False
      with b Parent n1 show ?thesis by auto
    qed
  qed
  show ?case
  proof (cases rb)
    case (Inl e)
    with cf b k2 show ?thesis by (simp add: Let_def)
  next
    case (Inr u)
    from 10(2)[OF refl cf[symmetric] b[symmetric] Inr]
    have "dom (net_table s2) \<subseteq> dom (net_table (snd (deploy_folder_instances ifc sub_name
            sub_value parent path prefix num_instances rest s2)))" .
    with k2 cf b Inr show ?thesis by (auto simp: Let_def)
  qed
qed

lemma create_master_networks_net_table:
  "net_table (snd (create_master_networks ifc net_type dc st)) = net_table st"
  by (simp add: create_master_networks_def Let_def create_master_networks_loop_keeps
      split: option.splits)

subsection \<open>Generic networks\<close>

text \<open>
  C7. Resolving a generic network name with an instance index returns the name followed
  by \<open>-GENERIC-\<close> and the padded index; a second call with the same arguments returns
  the same name and leaves the state as it is, so it makes no call to the driver. The
  first call creates the portgroup exactly when the concrete name is neither in the
  NetTable nor on the host, so both calls together create at most one. After the first
  call the concrete name is in the NetTable, whether the network was found or created,
  and no name is ever taken out of the NetTable: not by \<open>_get_net\<close> with whatever
  arguments, nor by \<open>_configure_nics\<close>, \<open>_create_master_networks\<close> or the walks of
  Master mode and of Deployment.
  The name must be of the generic category, the index must not be the default \<open>-1\<close>, and
  the categories of the network catalog are the keys of a dictionary (distinct).
\<close>

theorem get_net_generic_once:
  assumes "fst (determine_net_type ifc name st) = ''generic-networks''"
    and "instance \<noteq> - 1"
    and "distinct (map fst (self_networks ifc))"
  shows "\<exists>st1. get_net ifc name instance st = (Inr (name @ ''-GENERIC-'' @ pad instance), st1)
     \<and> get_net ifc name instance st1 = (Inr (name @ ''-GENERIC-'' @ pad instance), st1)
     \<and> name @ ''-GENERIC-'' @ pad instance \<in> dom (net_table st1)
     \<and> n_creates (calls st1) = n_creates (calls st) +
         (if name @ ''-GENERIC-'' @ pad instance \<in> dom (net_table st)
             \<or> name @ ''-GENERIC-'' @ pad instance \<in> dom (host_nets st) then 0 else 1)
     \<and> dom (net_table st) \<subseteq> dom (net_table st1)
     \<and> dom (net_table st') \<subseteq> dom (net_table (snd (get_net ifc' name' instance' st')))
     \<and> dom (net_table st') \<subseteq> dom (net_table (snd (configure_nics ifc' h nets inst st')))
     \<and> net_table (snd (create_master_networks ifc' net_type default_create st')) = net_table st'
     \<and> dom (net_table st')
           \<subseteq> dom (net_table (snd (master_parent_folder_gen ifc' folder parent st')))
     \<and> dom (net_table st')
           \<subseteq> dom (net_table (snd (deploy_parent_folder_gen ifc' folder parent path st')))"
proof -
  from get_net_first[OF assms] obtain st1 where
    f: "get_net ifc name instance st = (Inr (name @ ''-GENERIC-'' @ pad instance), st1)"
       "name @ ''-GENERIC-'' @ pad instance \<in> dom (net_table st1)"
       "dom (net_table st) \<subseteq> dom (net_table st1)"
       "n_creates (calls st1) = n_creates (calls st) +
         (if name @ ''-GENERIC-'' @ pad instance \<in> dom (net_table st)
             \<or> name @ ''-GENERIC-'' @ pad instance \<in> dom (host_nets st) then 0 else 1)"
    by blast
  have g1: "fst (determine_net_type ifc name st1) = ''generic-networks''"
    using assms(1) determine_net_type_fst[of ifc name st1 st] by simp
  have s: "get_net ifc name instance st1 = (Inr (name @ ''-GENERIC-'' @ pad instance), st1)"
    by (rule get_net_registered[OF g1 assms(2) f(2)])
  have c: "dom (net_table st') \<subseteq> dom (net_table (snd (configure_nics ifc' h nets inst st')))"
    using configure_nics_keeps[of st' ifc' h nets inst] by (simp add: keeps_table_def)
  have g: "dom (net_table st') \<subseteq> dom (net_table (snd (get_net ifc' name' instance' st')))"
    by (rule get_net_table_grows)
  have cm: "net_table (snd (create_master_networks ifc' net_type default_create st'))
              = net_table st'"
    by (rule create_master_networks_net_table)
  have m: "dom (net_table st')
             \<subseteq> dom (net_table (snd (master_parent_folder_gen ifc' folder parent st')))"
    by (rule master_keeps(1))
  have d: "dom (net_table st')
             \<subseteq> dom (net_table (snd (deploy_parent_folder_gen ifc' folder parent path st')))"
    by (rule deploy_keeps(1))
  show ?thesis
    by (intro exI[of _ st1] conjI) (fact f s g c cm m d)+
qed

theorem get_net_generic_once_witness:
  "fst (determine_net_type demo_iface ''lan'' empty_state) = ''generic-networks''
   \<and> distinct (map fst (self_networks demo_iface))
   \<and> (\<exists>st1. get_net demo_iface ''lan'' 3 empty_state = (Inr ''lan-GENERIC-03'', st1)
        \<and> get_net demo_iface ''lan'' 3 st1 = (Inr ''lan-GENERIC-03'', st1)
        \<and> ''lan-GENERIC-03'' \<in> dom (net_table st1)
        \<and> n_creates (calls st1) = 1)"
proof -
  have a: "fst (determine_net_type demo_iface ''lan'' empty_state) = ''generic-networks''"
    by (simp add: determine_net_type_def demo_iface_def)
  have b: "(3::int) \<noteq> - 1" by simp
  have c: "distinct (map fst (self_networks demo_iface))"
    by (simp add: demo_iface_def)
  have p: "pad 3 = ''03''" by (simp add: pad_def str_int_def)
  show ?thesis
    using a c
      get_net_generic_once[OF a b c, of empty_state demo_iface "''lan''" 0 "[]" 0 None
        "[]" True "[]" "[]" "[]"]
    by (auto simp: p empty_state_def n_creates_def)
qed

subsection \<open>NIC reconciliation\<close>

text \<open>
  C6, as stated, fails when NICs are added. A VM without NICs and the declared networks
  \<open>["a", "b"]\<close>, both on the host: \<open>_configure_nics\<close> adds a NIC on \<open>b\<close> and then one on
  \<open>a\<close>, reads no slot and edits nothing, so slot 1 ends on \<open>b\<close> and slot 2 on \<open>a\<close>. A
  walk of the slots 1 to 2 against the declared list would read both slots and edit
  both.
\<close>

theorem configure_nics_skips_added_slots:
  "fst (configure_nics demo_iface [''v''] 1 None two_nets_state) = Inr ()
   \<and> calls (snd (configure_nics demo_iface [''v''] 1 None two_nets_state)) =
       [AddNic [''v''] (Some ''b'') ''e1000'' ''b'', AddNic [''v''] (Some ''a'') ''e1000'' ''a'']
   \<and> walked_slots [''v''] (calls (snd (configure_nics demo_iface [''v''] 1 None two_nets_state)))
       = []
   \<and> map nic_backing
        (vm_nics (vms (snd (configure_nics demo_iface [''v''] 1 None two_nets_state)) [''v'']))
       = [Some ''b'', Some ''a'']
   \<and> calls (snd (configure_nics demo_iface [''v''] 1 None two_nets_state)) \<noteq>
     calls (snd (case reconcile_count [''v''] 1 two_nets_state of
                   (Inl e, st2) \<Rightarrow> (Inl e, st2)
                 | (Inr num_nets, st2) \<Rightarrow>
                     walk_slots_spec demo_iface [''v''] None (store two_nets_state 1)
                       [1..<length (store two_nets_state 1) + 1] st2))"
  by code_simp

text \<open>
  C6, amended. After the count reconciliation the slots 1 to \<open>k\<close> are walked, where \<open>k\<close>
  is the smaller of the number of NICs the VM had before the call and the number of
  declared networks: slot \<open>i\<close> against the \<open>i\<close>-th declared network, in declared order,
  the name resolved (a generic name with the instance index when one is given), the NIC
  left untouched if its backing is the resolved network and otherwise edited to it,
  backing and summary. NICs added by the reconciliation are not walked. The statement is
  an equation between \<open>_configure_nics\<close> and the walk as the specification words it, run
  after the count reconciliation of the code, whatever that leaves.
\<close>

theorem configure_nics_walks_existing_slots:
  "configure_nics ifc h networks instance st =
     (case reconcile_count h networks st of
        (Inl e, st2) \<Rightarrow> (Inl e, st2)
      | (Inr num_nets, st2) \<Rightarrow>
          walk_slots_spec ifc h instance (store st networks)
            [1..<min (num_nics_of st h) (length (store st networks)) + 1] st2)"
proof -
  let ?k = "min (num_nics_of st h) (length (store st networks))"
  from reconcile_count_result[of h networks st] obtain st2 where
    r: "reconcile_count h networks st = (Inr ?k, st2)"
       "store st2 networks = take ?k (store st networks)" by blast
  have z: "zip (take ?k (store st networks)) [1..<?k + 1]
          = map (\<lambda>i. (store st networks ! (i - 1), i)) [1..<?k + 1]"
    by (rule zip_take_slots) simp
  show ?thesis
    unfolding configure_nics_def
    by (simp only: r prod.case sum.case z edit_nics_as_walk)
qed

text \<open>
  C8. When the VM has as many NICs as networks are declared and every NIC points at the
  network its declared name resolves to (a network that is on the host),
  \<open>_configure_nics\<close> returns normally, and the calls it makes are the reads of the slots
  1 to n and nothing else: no NIC is added, deleted or edited, no portgroup is created,
  and the VMs, the declared list and the networks of the host are as before.
\<close>

theorem configure_nics_idempotent:
  assumes count: "num_nics_of st h = length (store st networks)"
    and points: "list_all2 (points_at ifc instance st) (store st networks) (vm_nics (vms st h))"
  shows "\<exists>st'. configure_nics ifc h networks instance st = (Inr (), st')
           \<and> calls st' = calls st @ map (GetNicById h) [1..<length (store st networks) + 1]
           \<and> filter is_nic_mutation (calls st') = filter is_nic_mutation (calls st)
           \<and> n_creates (calls st') = n_creates (calls st)
           \<and> vms st' = vms st \<and> store st' = store st \<and> host_nets st' = host_nets st"
proof -
  let ?n = "length (store st networks)"
  let ?st0 = "log DEBUG ''Editing NICs for VM %s'' [AStr (obj_name h)] st"
  let ?xs = "zip (store st networks) [1..<?n + 1]"
  have rc: "reconcile_count h networks st = (Inr ?n, ?st0)"
    using count by (simp add: reconcile_count_def Let_def num_nics_of_def)
  have pairs: "\<forall>(net_name, i) \<in> set ?xs. 1 \<le> i \<and> i \<le> num_nics_of st h
             \<and> points_at ifc instance st net_name (vm_nics (vms st h) ! (i - 1))"
  proof -
    {
      fix net_name i
      assume "(net_name, i) \<in> set ?xs"
      then obtain k where k: "k < ?n" "store st networks ! k = net_name"
        "[1..<?n + 1] ! k = i"
        by (auto simp: in_set_zip simp del: upt_Suc)
      from k(1,3) have i: "i = k + 1" by (simp del: upt_Suc)
      from points k(1,2) have "points_at ifc instance st net_name (vm_nics (vms st h) ! k)"
        by (auto simp: list_all2_conv_all_nth)
      with i k(1) count
      have "1 \<le> i \<and> i \<le> num_nics_of st h
             \<and> points_at ifc instance st net_name (vm_nics (vms st h) ! (i - 1))"
        by simp
    }
    then show ?thesis by blast
  qed
  have "host_nets ?st0 = host_nets st" "vms ?st0 = vms st" by simp_all
  from edit_nics_noop[OF pairs this] obtain s' where
    e: "edit_nics ifc h instance ?xs ?st0 = (Inr (), s')"
       "calls s' = calls ?st0 @ map (\<lambda>(n, i). GetNicById h i) ?xs"
       "vms s' = vms ?st0" "store s' = store ?st0" "host_nets s' = host_nets ?st0"
    by blast
  have m: "map (\<lambda>(n, i). GetNicById h i) ?xs = map (GetNicById h) [1..<?n + 1]"
    by (rule map_snd_of_zip) (simp del: upt_Suc)
  have c: "configure_nics ifc h networks instance st = (Inr (), s')"
    unfolding configure_nics_def by (simp only: rc prod.case sum.case log_fields e(1))
  have tr: "calls s' = calls st @ map (GetNicById h) [1..<?n + 1]"
    using e(2) m by simp
  have f: "filter is_nic_mutation (calls s') = filter is_nic_mutation (calls st)"
    unfolding tr by (simp add: is_nic_mutation_def del: upt_Suc)
  have nc: "n_creates (calls s') = n_creates (calls st)"
    unfolding tr n_creates_def by (simp add: is_create_portgroup_def del: upt_Suc)
  show ?thesis using c tr f nc e(3,4,5) by simp
qed

theorem configure_nics_idempotent_witness:
  "num_nics_of deployed_state [''env'', ''F'', ''web''] = length (store deployed_state 2)
   \<and> list_all2 (points_at demo_iface (Some 0) deployed_state) (store deployed_state 2)
        (vm_nics (vms deployed_state [''env'', ''F'', ''web'']))
   \<and> (\<exists>st'. configure_nics demo_iface [''env'', ''F'', ''web''] 2 (Some 0) deployed_state
               = (Inr (), st')
         \<and> calls st' = [GetNicById [''env'', ''F'', ''web''] 1,
                         GetNicById [''env'', ''F'', ''web''] 2]
         \<and> filter is_nic_mutation (calls st') = [])"
proof -
  have a: "num_nics_of deployed_state [''env'', ''F'', ''web''] = length (store deployed_state 2)"
    by code_simp
  have b: "list_all2 (points_at demo_iface (Some 0) deployed_state) (store deployed_state 2)
        (vm_nics (vms deployed_state [''env'', ''F'', ''web'']))"
    by code_simp
  have c: "calls deployed_state = []" by code_simp
  have d: "[1..<length (store deployed_state 2) + 1] = [1, 2]" by code_simp
  from configure_nics_idempotent[OF a b] obtain st' where
    "configure_nics demo_iface [''env'', ''F'', ''web''] 2 (Some 0) deployed_state = (Inr (), st')"
    "calls st' = calls deployed_state
        @ map (GetNicById [''env'', ''F'', ''web'']) [1..<length (store deployed_state 2) + 1]"
    "filter is_nic_mutation (calls st') = filter is_nic_mutation (calls deployed_state)"
    by blast
  then show ?thesis using a b unfolding c d by simp
qed

subsection \<open>Unknown service references\<close>

text \<open>
  C10. When the \<open>service\<close> of a service instance names no entry of the services catalog,
  \<open>_is_vsphere\<close> logs an error and returns false, and the loops over the services of a
  base folder, in Master mode (\<open>_master_base_folder_gen\<close>) and in Deployment
  (\<open>_deploy_gen_services\<close>), treat the entry, wherever it stands in the dictionary, as
  follows: the services before it are processed as without it, the entry adds the two
  log records and nothing else, and the services after it are processed from there. The
  entry itself never raises.
\<close>

theorem unknown_service_is_skipped:
  assumes "si_service sconfig \<notin> fst ` set (self_services ifc)"
  shows "is_vsphere ifc (si_service sconfig) st =
           (False, log ERROR ''Could not find service %s in list of services''
                     [AStr (si_service sconfig)] st)
    \<and> master_services ifc folder_name parent (before @ (sname, sconfig) # after) st =
        (case master_services ifc folder_name parent before st of
           (Inl e, s) \<Rightarrow> (Inl e, s)
         | (Inr u, s) \<Rightarrow>
             master_services ifc folder_name parent after
               (log DEBUG ''Skipping non-vsphere service %s'' [AStr sname]
                  (log ERROR ''Could not find service %s in list of services''
                     [AStr (si_service sconfig)] s)))
    \<and> deploy_gen_services ifc (before @ (sname, sconfig) # after) parent path inst st =
        (case deploy_gen_services ifc before parent path inst st of
           (Inl e, s) \<Rightarrow> (Inl e, s)
         | (Inr u, s) \<Rightarrow>
             deploy_gen_services ifc after parent path inst
               (log DEBUG ''Skipping non-vsphere service %s'' [AStr sname]
                  (log ERROR ''Could not find service %s in list of services''
                     [AStr (si_service sconfig)] s)))"
proof -
  from assms have n: "map_of (self_services ifc) (si_service sconfig) = None"
    by (simp add: map_of_eq_None_iff)
  have v: "\<And>s. is_vsphere ifc (si_service sconfig) s =
           (False, log ERROR ''Could not find service %s in list of services''
                     [AStr (si_service sconfig)] s)"
    by (simp add: is_vsphere_def n)
  show ?thesis
    by (simp add: v master_services_append deploy_gen_services_append
        split: prod.splits sum.splits)
qed

theorem unknown_service_is_skipped_witness:
  "si_service ghost_inst \<notin> fst ` set (self_services demo_iface)
   \<and> fst (is_vsphere demo_iface ''ghost'' demo_state) = False
   \<and> master_services demo_iface ''F'' [''env'', ''MASTER-FOLDERS'', ''(MASTER) F'']
        ([] @ (''x'', ghost_inst) # [(''web'', web_inst)]) demo_state =
      master_services demo_iface ''F'' [''env'', ''MASTER-FOLDERS'', ''(MASTER) F'']
        [(''web'', web_inst)]
        (log DEBUG ''Skipping non-vsphere service %s'' [AStr ''x'']
           (log ERROR ''Could not find service %s in list of services'' [AStr ''ghost'']
              demo_state))
   \<and> filter (\<lambda>c. case c of CloneVm s f n \<Rightarrow> True | _ \<Rightarrow> False)
        (calls (snd (deploy_gen_services demo_iface
                       [(''x'', ghost_inst), (''web'', web_inst)] [''env''] '''' 0
                       bare_master_state)))
      = [CloneVm [''env'', ''MASTER-FOLDERS'', ''(MASTER) web''] [''env''] ''web'']"
proof -
  have a: "si_service ghost_inst \<notin> fst ` set (self_services demo_iface)"
    by (simp add: ghost_inst_def demo_iface_def)
  have g: "si_service ghost_inst = ''ghost''" by (simp add: ghost_inst_def)
  have d: "filter (\<lambda>c. case c of CloneVm s f n \<Rightarrow> True | _ \<Rightarrow> False)
        (calls (snd (deploy_gen_services demo_iface
                       [(''x'', ghost_inst), (''web'', web_inst)] [''env''] '''' 0
                       bare_master_state)))
      = [CloneVm [''env'', ''MASTER-FOLDERS'', ''(MASTER) web''] [''env''] ''web'']"
    by code_simp
  show ?thesis
    using a d
      unknown_service_is_skipped[OF a, of demo_state "''F''"
        "[''env'', ''MASTER-FOLDERS'', ''(MASTER) F'']" "[]" "''x''" "[(''web'', web_inst)]"]
    by (simp add: g)
qed

end
